theory Spec2Isabelle
  imports Main
begin

section \<open>JavaScript values\<close>

text \<open>
  A parsed JSON value, as \<open>express.json()\<close> hands it to a handler. A field that is absent
  from an object reads as \<open>undefined\<close>, modelled by \<open>None\<close>. Numbers carry an integer:
  the handlers only test a number for truthiness and for its \<open>typeof\<close>, where every
  non-zero double behaves alike.
\<close>

datatype jsval =
    JNull
  | JBool bool
  | JNum int
  | JStr string
  | JArr "jsval list"
  | JObj "(string \<times> jsval) list"

text \<open>\<open>!v\<close> is \<open>\<not> truthy v\<close>: undefined, null, false, 0 and the empty string are falsy.\<close>

fun truthy :: "jsval option \<Rightarrow> bool" where
  "truthy None = False"
| "truthy (Some JNull) = False"
| "truthy (Some (JBool b)) = b"
| "truthy (Some (JNum n)) = (n \<noteq> 0)"
| "truthy (Some (JStr s)) = (s \<noteq> [])"
| "truthy (Some (JArr xs)) = True"
| "truthy (Some (JObj kvs)) = True"

text \<open>The \<open>typeof\<close> operator; null and arrays are of type \<open>object\<close>.\<close>

fun typeof :: "jsval option \<Rightarrow> string" where
  "typeof None = ''undefined''"
| "typeof (Some JNull) = ''object''"
| "typeof (Some (JBool b)) = ''boolean''"
| "typeof (Some (JNum n)) = ''number''"
| "typeof (Some (JStr s)) = ''string''"
| "typeof (Some (JArr xs)) = ''object''"
| "typeof (Some (JObj kvs)) = ''object''"

text \<open>
  \<open>String.prototype.trim\<close> removes white space and line terminators from both ends.
  Of JavaScript's white space, the code points below 256 are representable in \<open>char\<close>:
  tab, line feed, vertical tab, form feed, carriage return, space and the no-break space.
\<close>

definition isWhiteSpace :: "char \<Rightarrow> bool" where
  "isWhiteSpace c = (of_char c \<in> {9, 10, 11, 12, 13, 32, 160 :: nat})"

definition trim :: "string \<Rightarrow> string" where
  "trim s = rev (dropWhile isWhiteSpace (rev (dropWhile isWhiteSpace s)))"

text \<open>\<open>Array.prototype.findIndex\<close> (\<open>None\<close> for -1) and \<open>splice(index, 1)\<close>.\<close>

fun findIndex :: "('a \<Rightarrow> bool) \<Rightarrow> 'a list \<Rightarrow> nat option" where
  "findIndex P [] = None"
| "findIndex P (x # xs) = (if P x then Some 0 else map_option Suc (findIndex P xs))"

definition splice1 :: "nat \<Rightarrow> 'a list \<Rightarrow> 'a list" where
  "splice1 index xs = take index xs @ drop (Suc index) xs"

section \<open>Records of the store (db/database.js)\<close>

record user =
  user_id :: string
  username :: string
  apiKey :: string
  user_createdAt :: string

record player =
  player_id :: string
  player_name :: string
  joinedAt :: string

record move =
  move_id :: string
  playerId :: string
  data :: jsval
  timestamp :: string

text \<open>
  A game's name and status start as strings, but \<open>PUT /games/:gameId\<close> stores any truthy
  JSON value there, so both fields hold a \<open>jsval\<close>.
\<close>

record game =
  game_id :: string
  game_name :: jsval
  ownerId :: string
  players :: "player list"
  moves :: "move list"
  status :: jsval
  createdAt :: string
  updatedAt :: string

text \<open>
  The two JSON files are the lists \<open>user list\<close> and \<open>game list\<close>. Every operation reads
  the whole list, changes it in memory and writes it back; the model takes the list and
  returns the list written. What \<open>uuidv4()\<close> and \<open>new Date().toISOString()\<close> return is
  an argument of the operation, one per call in the source, in the order of the calls.
  Reading and writing the files is taken to succeed, so that the only exception a handler
  catches is the one \<open>registerUser\<close> throws, modelled by \<open>Inl\<close> with its message.
\<close>

subsection \<open>User operations\<close>

definition registerUser ::
  "user list \<Rightarrow> string \<Rightarrow> string \<Rightarrow> string \<Rightarrow> string \<Rightarrow> string \<Rightarrow> string + (user \<times> user list)" where
  "registerUser users uname u1 u2 u3 now =
     (if find (\<lambda>u. username u = uname) users \<noteq> None then Inl ''User already exists''
      else
        let newUser = \<lparr>user_id = u3, username = uname,
                        apiKey = u1 @ filter (\<lambda>c. c \<noteq> CHR ''-'') u2,
                        user_createdAt = now\<rparr>
        in Inr (newUser, users @ [newUser]))"

definition getUserByApiKey :: "user list \<Rightarrow> string \<Rightarrow> user option" where
  "getUserByApiKey users k = find (\<lambda>u. apiKey u = k) users"

definition getUserById :: "user list \<Rightarrow> string \<Rightarrow> user option" where
  "getUserById users i = find (\<lambda>u. user_id u = i) users"

subsection \<open>Game operations\<close>

definition createGame ::
  "game list \<Rightarrow> string \<Rightarrow> string \<Rightarrow> string \<Rightarrow> string \<Rightarrow> string \<Rightarrow> game \<times> game list" where
  "createGame games userId gameName u t1 t2 =
     (let newGame = \<lparr>game_id = u, game_name = JStr gameName, ownerId = userId,
                      players = [], moves = [], status = JStr ''active'',
                      createdAt = t1, updatedAt = t2\<rparr>
      in (newGame, games @ [newGame]))"

definition getGamesByUserId :: "game list \<Rightarrow> string \<Rightarrow> game list" where
  "getGamesByUserId games userId = filter (\<lambda>g. ownerId g = userId) games"

definition getGameById :: "game list \<Rightarrow> string \<Rightarrow> game option" where
  "getGameById games gameId = find (\<lambda>g. game_id g = gameId) games"

text \<open>
  The object \<open>updates\<close> built by the PUT handler has at most the keys \<open>name\<close> and
  \<open>status\<close>; \<open>Object.assign(game, updates, {updatedAt})\<close> copies the keys present.
\<close>

record updates =
  upd_name :: "jsval option"
  upd_status :: "jsval option"

definition assign :: "game \<Rightarrow> updates \<Rightarrow> string \<Rightarrow> game" where
  "assign g upd now =
     g\<lparr>game_name := (case upd_name upd of None \<Rightarrow> game_name g | Some n \<Rightarrow> n),
       status := (case upd_status upd of None \<Rightarrow> status g | Some s \<Rightarrow> s),
       updatedAt := now\<rparr>"

text \<open>
  \<open>games.find\<close> returns a reference to the first game with the identifier, which the
  operation then changes in place: the model updates the list at that index.
\<close>

definition updateGame :: "game list \<Rightarrow> string \<Rightarrow> updates \<Rightarrow> string \<Rightarrow> game option \<times> game list" where
  "updateGame games gameId upd now =
     (case findIndex (\<lambda>g. game_id g = gameId) games of
        None \<Rightarrow> (None, games)
      | Some i \<Rightarrow> (let g = assign (games ! i) upd now in (Some g, games[i := g])))"

definition deleteGame :: "game list \<Rightarrow> string \<Rightarrow> bool \<times> game list" where
  "deleteGame games gameId =
     (case findIndex (\<lambda>g. game_id g = gameId) games of
        None \<Rightarrow> (False, games)
      | Some index \<Rightarrow> (True, splice1 index games))"

subsection \<open>Player operations\<close>

definition addPlayerToGame ::
  "game list \<Rightarrow> string \<Rightarrow> string \<Rightarrow> string \<Rightarrow> string \<Rightarrow> string \<Rightarrow> player option \<times> game list" where
  "addPlayerToGame games gameId playerName u t1 t2 =
     (case findIndex (\<lambda>g. game_id g = gameId) games of
        None \<Rightarrow> (None, games)
      | Some i \<Rightarrow>
          (let g = games ! i;
               newPlayer = \<lparr>player_id = u, player_name = playerName, joinedAt = t1\<rparr>
           in (Some newPlayer, games[i := g\<lparr>players := players g @ [newPlayer], updatedAt := t2\<rparr>])))"

definition removePlayerFromGame :: "game list \<Rightarrow> string \<Rightarrow> string \<Rightarrow> string \<Rightarrow> bool \<times> game list" where
  "removePlayerFromGame games gameId pid now =
     (case findIndex (\<lambda>g. game_id g = gameId) games of
        None \<Rightarrow> (False, games)
      | Some i \<Rightarrow>
          (let g = games ! i in
           case findIndex (\<lambda>p. player_id p = pid) (players g) of
             None \<Rightarrow> (False, games)
           | Some index \<Rightarrow>
               (True, games[i := g\<lparr>players := splice1 index (players g), updatedAt := now\<rparr>])))"

definition getGamePlayers :: "game list \<Rightarrow> string \<Rightarrow> player list" where
  "getGamePlayers games gameId =
     (case getGameById games gameId of None \<Rightarrow> [] | Some g \<Rightarrow> players g)"

subsection \<open>Move operations\<close>

definition addMoveToGame ::
  "game list \<Rightarrow> string \<Rightarrow> string \<Rightarrow> jsval \<Rightarrow> string \<Rightarrow> string \<Rightarrow> string \<Rightarrow> move option \<times> game list" where
  "addMoveToGame games gameId pid moveData u t1 t2 =
     (case findIndex (\<lambda>g. game_id g = gameId) games of
        None \<Rightarrow> (None, games)
      | Some i \<Rightarrow>
          (let g = games ! i;
               newMove = \<lparr>move_id = u, playerId = pid, data = moveData, timestamp = t1\<rparr>
           in (Some newMove, games[i := g\<lparr>moves := moves g @ [newMove], updatedAt := t2\<rparr>])))"

definition getGameMoves :: "game list \<Rightarrow> string \<Rightarrow> move list" where
  "getGameMoves games gameId =
     (case getGameById games gameId of None \<Rightarrow> [] | Some g \<Rightarrow> moves g)"

section \<open>The realtime layer (websocket.js)\<close>

text \<open>
  The frames a socket is sent, before \<open>JSON.stringify\<close>: the welcome message (with
  \<open>game.name\<close>, the game identifier and the user name), and the four events that are
  broadcast. \<open>addPlayerToGame\<close> and \<open>addMoveToGame\<close> may return null, so the events carry
  an option.
\<close>

datatype event =
    Connected jsval string string
  | PlayerJoined string "player option"
  | PlayerRemoved string string
  | MoveEvent string "move option" string
  | PlayerDisconnected string

text \<open>
  A WebSocket object of the \<open>ws\<close> library, as far as the code observes it: its
  \<open>readyState\<close> (0 CONNECTING, 1 OPEN, 2 CLOSING, 3 CLOSED), the frames sent to it, the
  code and reason it was closed with, and the closure of its \<open>close\<close> listener (the game
  identifier and \<open>user.username\<close> the listener captured), if one was attached.
\<close>

record socket =
  readyState :: nat
  sent :: "event list"
  closeCode :: "(nat \<times> string) option"
  onClose :: "(string \<times> string) option"

text \<open>An entry of \<open>gameConnections\<close>: \<open>{ ws, userId, username }\<close>, the socket by reference.\<close>

record connection =
  ws :: nat
  userId :: string
  conn_username :: string

text \<open>
  The state of the process: the two files, the map \<open>gameConnections\<close>, and the store of
  socket objects, addressed by handle. A socket the server has not accepted yet is
  CONNECTING.
\<close>

record world =
  users :: "user list"
  games :: "game list"
  gameConnections :: "string \<rightharpoonup> connection list"
  sockets :: "nat \<Rightarrow> socket"

definition new_socket :: socket where
  "new_socket = \<lparr>readyState = 0, sent = [], closeCode = None, onClose = None\<rparr>"

definition init :: world where
  "init = \<lparr>users = [], games = [], gameConnections = Map.empty, sockets = (\<lambda>h. new_socket)\<rparr>"

text \<open>
  The library's part. \<open>ws.send\<close> on an OPEN socket delivers the frame; \<open>ws.close\<close> on an
  OPEN socket starts the closing handshake with the code given. The code calls both on
  OPEN sockets only: in the connection handler on the socket just accepted, in the
  broadcast behind the test of \<open>readyState\<close>.
\<close>

definition ws_send :: "nat \<Rightarrow> event \<Rightarrow> world \<Rightarrow> world" where
  "ws_send h m w = w\<lparr>sockets := (sockets w)(h := (sockets w h)\<lparr>sent := sent (sockets w h) @ [m]\<rparr>)\<rparr>"

definition ws_close :: "nat \<Rightarrow> nat \<Rightarrow> string \<Rightarrow> world \<Rightarrow> world" where
  "ws_close h code reason w =
     w\<lparr>sockets := (sockets w)(h := (sockets w h)\<lparr>readyState := 2, closeCode := Some (code, reason)\<rparr>)\<rparr>"

definition ws_on_close :: "nat \<Rightarrow> string \<Rightarrow> string \<Rightarrow> world \<Rightarrow> world" where
  "ws_on_close h gameId uname w =
     w\<lparr>sockets := (sockets w)(h := (sockets w h)\<lparr>onClose := Some (gameId, uname)\<rparr>)\<rparr>"

definition set_readyState :: "nat \<Rightarrow> nat \<Rightarrow> world \<Rightarrow> world" where
  "set_readyState h n w = w\<lparr>sockets := (sockets w)(h := (sockets w h)\<lparr>readyState := n\<rparr>)\<rparr>"

subsection \<open>broadcastToGame\<close>

text \<open>The callback of \<open>connections.forEach\<close>, and the loop as a fold over the list.\<close>

definition deliver :: "event \<Rightarrow> connection \<Rightarrow> world \<Rightarrow> world" where
  "deliver message c w = (if readyState (sockets w (ws c)) = 1 then ws_send (ws c) message w else w)"

definition broadcastToGame :: "string \<Rightarrow> event \<Rightarrow> world \<Rightarrow> world" where
  "broadcastToGame gameId message w =
     (case gameConnections w gameId of
        None \<Rightarrow> w
      | Some connections \<Rightarrow> fold (deliver message) connections w)"

subsection \<open>The connection handler of setupWebSocket\<close>

text \<open>Lines 242 to 259 and the listener of line 273: the connection is admitted.\<close>

definition admit :: "nat \<Rightarrow> user \<Rightarrow> game \<Rightarrow> string \<Rightarrow> world \<Rightarrow> world" where
  "admit h usr gm gameId w =
     (let w1 = (if gameConnections w gameId = None
                then w\<lparr>gameConnections := (gameConnections w)(gameId \<mapsto> [])\<rparr> else w);
          w2 = (case gameConnections w1 gameId of
                  None \<Rightarrow> w1
                | Some cs \<Rightarrow>
                    w1\<lparr>gameConnections := (gameConnections w1)(gameId \<mapsto>
                          cs @ [\<lparr>ws = h, userId = user_id usr, conn_username = username usr\<rparr>])\<rparr>);
          w3 = ws_send h (Connected (game_name gm) gameId (username usr)) w2
      in ws_on_close h gameId (username usr) w3)"

text \<open>
  The handler from line 212 on, given what \<open>url.searchParams.get\<close> returned for the two
  parameters (null, \<open>None\<close>, for a parameter that is absent). The server emits
  \<open>connection\<close> with a socket that has just become OPEN.
\<close>

definition handshake :: "nat \<Rightarrow> string option \<Rightarrow> string option \<Rightarrow> world \<Rightarrow> world" where
  "handshake h apiKeyParam gameIdParam w0 =
     (let w = set_readyState h 1 w0 in
      case (apiKeyParam, gameIdParam) of
        (Some k, Some gameId) \<Rightarrow>
          if k = [] \<or> gameId = [] then ws_close h 4000 ''Missing apiKey or gameId parameter'' w
          else
            (case getUserByApiKey (users w) k of
               None \<Rightarrow> ws_close h 4001 ''Invalid API key'' w
             | Some usr \<Rightarrow>
                 (case getGameById (games w) gameId of
                    None \<Rightarrow> ws_close h 4002 ''Game not found'' w
                  | Some gm \<Rightarrow>
                      (let isPlayer = list_ex (\<lambda>p. player_id p = user_id usr) (players gm);
                           isOwner = (ownerId gm = user_id usr)
                       in if \<not> isPlayer \<and> \<not> isOwner
                          then ws_close h 4003 ''Access denied: Not a player or owner of this game'' w
                          else admit h usr gm gameId w)))
      | _ \<Rightarrow> ws_close h 4000 ''Missing apiKey or gameId parameter'' w)"

text \<open>
  The handler as a whole. Its first statement, line 211, is
  \<open>new URL(req.url, `http://${req.headers.host}`)\<close>. The constructor is the platform's:
  it either throws a \<open>TypeError\<close>, as it does for the request target \<open>//?gameId=g1\<close>,
  whose host is empty, or returns a URL, of which the handler reads the search
  parameters only. What the constructor does is an argument of the model: \<open>Inl\<close> with
  the message of the exception, or \<open>Inr\<close> with the search parameters, the pairs of name
  and value in the order of the query string. \<open>URLSearchParams.get\<close> returns the first
  value of a name, or null.

  The handler has no \<open>try\<close>: an exception of the constructor leaves the handler at line
  211, with the socket OPEN as the server handed it over, not closed and not registered.
  The model returns that state with the exception; nothing in the source catches it.
\<close>

type_synonym searchParams = "(string \<times> string) list"

definition searchParams_get :: "searchParams \<Rightarrow> string \<Rightarrow> string option" where
  "searchParams_get params name = map_of params name"

datatype completion = Returned | Threw string

definition on_connection :: "nat \<Rightarrow> string + searchParams \<Rightarrow> world \<Rightarrow> completion \<times> world" where
  "on_connection h url w0 =
     (case url of
        Inl message \<Rightarrow> (Threw message, set_readyState h 1 w0)
      | Inr params \<Rightarrow>
          (Returned,
           handshake h (searchParams_get params ''apiKey'') (searchParams_get params ''gameId'') w0))"

subsection \<open>The close listener\<close>

definition close_listener :: "nat \<Rightarrow> string \<Rightarrow> string \<Rightarrow> world \<Rightarrow> world" where
  "close_listener h gameId uname w =
     (let w1 = (case gameConnections w gameId of
                  None \<Rightarrow> w
                | Some connections \<Rightarrow>
                    (case findIndex (\<lambda>c. ws c = h) connections of
                       None \<Rightarrow> w
                     | Some index \<Rightarrow>
                         w\<lparr>gameConnections := (gameConnections w)(gameId \<mapsto> splice1 index connections)\<rparr>))
      in broadcastToGame gameId (PlayerDisconnected uname) w1)"

text \<open>
  The library's part of a close: once the connection has ended the socket is CLOSED, and
  then the \<open>close\<close> event runs the listener, if the handler attached one.
\<close>

definition socket_closed :: "nat \<Rightarrow> world \<Rightarrow> world" where
  "socket_closed h w0 =
     (let w = set_readyState h 3 w0 in
      case onClose (sockets w h) of
        None \<Rightarrow> w
      | Some (gameId, uname) \<Rightarrow> close_listener h gameId uname w)"

section \<open>The REST layer\<close>

text \<open>
  What a handler passes to \<open>res.status(...).json(...)\<close>: the status and the body, one
  constructor per shape of body the handlers build.
\<close>

datatype body =
    ErrorBody string
  | UserBody string user
  | GameBody string "game option"
  | GameOnly game
  | GamesBody nat "game list"
  | MessageBody string
  | PlayerBody string "player option"
  | PlayersBody string nat "player list"
  | MoveBody string "move option"
  | MovesBody string nat "move list"
  | MoveOnly move

datatype response = Response (status_code: nat) (payload: body)

text \<open>The string of a value already tested with \<open>typeof v = ''string''\<close>.\<close>

fun the_str :: "jsval option \<Rightarrow> string" where
  "the_str (Some (JStr s)) = s"
| "the_str v = []"

text \<open>The value of a field already tested to be truthy, hence present.\<close>

fun the_val :: "jsval option \<Rightarrow> jsval" where
  "the_val (Some v) = v"
| "the_val None = JNull"

subsection \<open>routes/auth.js\<close>

definition post_register ::
  "world \<Rightarrow> (string \<rightharpoonup> jsval) \<Rightarrow> string \<Rightarrow> string \<Rightarrow> string \<Rightarrow> string \<Rightarrow> response \<times> world" where
  "post_register w reqBody u1 u2 u3 now =
     (let uname = reqBody ''username'' in
      if \<not> truthy uname \<or> typeof uname \<noteq> ''string'' \<or> length (trim (the_str uname)) = 0
      then (Response 400 (ErrorBody ''Invalid username''), w)
      else
        (case registerUser (users w) (trim (the_str uname)) u1 u2 u3 now of
           Inl msg \<Rightarrow> (Response 400 (ErrorBody msg), w)
         | Inr (usr, users') \<Rightarrow>
             (Response 201 (UserBody ''User registered successfully'' usr), w\<lparr>users := users'\<rparr>)))"

subsection \<open>middleware/auth.js\<close>

definition apiKeyAuth ::
  "world \<Rightarrow> string option \<Rightarrow> (user \<Rightarrow> response \<times> world) \<Rightarrow> response \<times> world" where
  "apiKeyAuth w header next =
     (case header of
        None \<Rightarrow> (Response 401 (ErrorBody ''API key missing''), w)
      | Some k \<Rightarrow>
          if k = [] then (Response 401 (ErrorBody ''API key missing''), w)
          else
            (case getUserByApiKey (users w) k of
               None \<Rightarrow> (Response 401 (ErrorBody ''Invalid API key''), w)
             | Some usr \<Rightarrow> next usr))"

subsection \<open>routes/games.js\<close>

text \<open>
  Each handler takes the state, \<open>req.user\<close>, the path parameters and \<open>req.body\<close>, and
  returns the response with the state it leaves.
\<close>

definition post_games ::
  "world \<Rightarrow> user \<Rightarrow> (string \<rightharpoonup> jsval) \<Rightarrow> string \<Rightarrow> string \<Rightarrow> string \<Rightarrow> response \<times> world" where
  "post_games w usr reqBody u t1 t2 =
     (let name = reqBody ''name'' in
      if \<not> truthy name \<or> typeof name \<noteq> ''string'' \<or> length (trim (the_str name)) = 0
      then (Response 400 (ErrorBody ''Invalid game name''), w)
      else
        (let (gm, games') = createGame (games w) (user_id usr) (trim (the_str name)) u t1 t2
         in (Response 201 (GameBody ''Game created successfully'' (Some gm)), w\<lparr>games := games'\<rparr>)))"

definition get_games :: "world \<Rightarrow> user \<Rightarrow> response \<times> world" where
  "get_games w usr =
     (let gs = getGamesByUserId (games w) (user_id usr)
      in (Response 200 (GamesBody (length gs) gs), w))"

definition get_game :: "world \<Rightarrow> user \<Rightarrow> string \<Rightarrow> response \<times> world" where
  "get_game w usr gameId =
     (case getGameById (games w) gameId of
        None \<Rightarrow> (Response 404 (ErrorBody ''Game not found''), w)
      | Some gm \<Rightarrow>
          if ownerId gm \<noteq> user_id usr then (Response 403 (ErrorBody ''Access denied''), w)
          else (Response 200 (GameOnly gm), w))"

definition put_game ::
  "world \<Rightarrow> user \<Rightarrow> string \<Rightarrow> (string \<rightharpoonup> jsval) \<Rightarrow> string \<Rightarrow> response \<times> world" where
  "put_game w usr gameId reqBody now =
     (case getGameById (games w) gameId of
        None \<Rightarrow> (Response 404 (ErrorBody ''Game not found''), w)
      | Some gm \<Rightarrow>
          if ownerId gm \<noteq> user_id usr then (Response 403 (ErrorBody ''Access denied''), w)
          else
            (let name = reqBody ''name'';
                 stat = reqBody ''status'';
                 upd = \<lparr>upd_name = (if truthy name then name else None),
                        upd_status = (if truthy stat then stat else None)\<rparr>;
                 (updatedGame, games') = updateGame (games w) gameId upd now
             in (Response 200 (GameBody ''Game updated successfully'' updatedGame),
                 w\<lparr>games := games'\<rparr>)))"

definition delete_game :: "world \<Rightarrow> user \<Rightarrow> string \<Rightarrow> response \<times> world" where
  "delete_game w usr gameId =
     (case getGameById (games w) gameId of
        None \<Rightarrow> (Response 404 (ErrorBody ''Game not found''), w)
      | Some gm \<Rightarrow>
          if ownerId gm \<noteq> user_id usr then (Response 403 (ErrorBody ''Access denied''), w)
          else
            (let (deleted, games') = deleteGame (games w) gameId
             in (Response 200 (MessageBody ''Game deleted successfully''), w\<lparr>games := games'\<rparr>)))"

definition post_players ::
  "world \<Rightarrow> user \<Rightarrow> string \<Rightarrow> (string \<rightharpoonup> jsval) \<Rightarrow> string \<Rightarrow> string \<Rightarrow> string \<Rightarrow> response \<times> world" where
  "post_players w usr gameId reqBody u t1 t2 =
     (case getGameById (games w) gameId of
        None \<Rightarrow> (Response 404 (ErrorBody ''Game not found''), w)
      | Some gm \<Rightarrow>
          if ownerId gm \<noteq> user_id usr then (Response 403 (ErrorBody ''Access denied''), w)
          else
            (let name = reqBody ''name'' in
             if \<not> truthy name \<or> typeof name \<noteq> ''string'' \<or> length (trim (the_str name)) = 0
             then (Response 400 (ErrorBody ''Invalid player name''), w)
             else
               (let (plr, games') = addPlayerToGame (games w) gameId (trim (the_str name)) u t1 t2;
                    w1 = w\<lparr>games := games'\<rparr>;
                    w2 = broadcastToGame gameId (PlayerJoined gameId plr) w1
                in (Response 201 (PlayerBody ''Player added successfully'' plr), w2))))"

definition get_players :: "world \<Rightarrow> user \<Rightarrow> string \<Rightarrow> response \<times> world" where
  "get_players w usr gameId =
     (case getGameById (games w) gameId of
        None \<Rightarrow> (Response 404 (ErrorBody ''Game not found''), w)
      | Some gm \<Rightarrow>
          if ownerId gm \<noteq> user_id usr then (Response 403 (ErrorBody ''Access denied''), w)
          else
            (let ps = getGamePlayers (games w) gameId
             in (Response 200 (PlayersBody gameId (length ps) ps), w)))"

definition delete_player :: "world \<Rightarrow> user \<Rightarrow> string \<Rightarrow> string \<Rightarrow> string \<Rightarrow> response \<times> world" where
  "delete_player w usr gameId pid now =
     (case getGameById (games w) gameId of
        None \<Rightarrow> (Response 404 (ErrorBody ''Game not found''), w)
      | Some gm \<Rightarrow>
          if ownerId gm \<noteq> user_id usr then (Response 403 (ErrorBody ''Access denied''), w)
          else
            (let (result, games') = removePlayerFromGame (games w) gameId pid now in
             if \<not> result then (Response 404 (ErrorBody ''Player not found''), w)
             else
               (let w1 = w\<lparr>games := games'\<rparr>;
                    w2 = broadcastToGame gameId (PlayerRemoved gameId pid) w1
                in (Response 200 (MessageBody ''Player removed successfully''), w2))))"

definition post_moves ::
  "world \<Rightarrow> user \<Rightarrow> string \<Rightarrow> (string \<rightharpoonup> jsval) \<Rightarrow> string \<Rightarrow> string \<Rightarrow> string \<Rightarrow> response \<times> world" where
  "post_moves w usr gameId reqBody u t1 t2 =
     (case getGameById (games w) gameId of
        None \<Rightarrow> (Response 404 (ErrorBody ''Game not found''), w)
      | Some gm \<Rightarrow>
          (let currentUserIsPlayer = list_ex (\<lambda>p. player_id p = user_id usr) (players gm);
               currentUserIsOwner = (ownerId gm = user_id usr)
           in
           if \<not> currentUserIsPlayer \<and> \<not> currentUserIsOwner
           then (Response 403
                   (ErrorBody ''Access denied: Only players and the game owner can post moves''), w)
           else
             (let pid = reqBody ''playerId'';
                  dat = reqBody ''data''
              in
              if \<not> truthy pid \<or> typeof pid \<noteq> ''string''
              then (Response 400 (ErrorBody ''Invalid playerId''), w)
              else if \<not> truthy dat \<or> typeof dat \<noteq> ''object''
              then (Response 400 (ErrorBody ''Invalid move data (must be JSON object)''), w)
              else
                (case find (\<lambda>p. player_id p = the_str pid) (players gm) of
                   None \<Rightarrow> (Response 404 (ErrorBody ''Player not found in this game''), w)
                 | Some plr \<Rightarrow>
                     (let (mv, games') =
                            addMoveToGame (games w) gameId (the_str pid) (the_val dat) u t1 t2;
                          w1 = w\<lparr>games := games'\<rparr>;
                          w2 = broadcastToGame gameId (MoveEvent gameId mv (player_name plr)) w1
                      in (Response 201 (MoveBody ''Move added successfully'' mv), w2))))))"

definition get_moves :: "world \<Rightarrow> user \<Rightarrow> string \<Rightarrow> response \<times> world" where
  "get_moves w usr gameId =
     (case getGameById (games w) gameId of
        None \<Rightarrow> (Response 404 (ErrorBody ''Game not found''), w)
      | Some gm \<Rightarrow>
          (let currentUserIsPlayer = list_ex (\<lambda>p. player_id p = user_id usr) (players gm);
               currentUserIsOwner = (ownerId gm = user_id usr)
           in
           if \<not> currentUserIsPlayer \<and> \<not> currentUserIsOwner
           then (Response 403
                   (ErrorBody ''Access denied: Only players and the game owner can view moves''), w)
           else
             (let ms = getGameMoves (games w) gameId
              in (Response 200 (MovesBody gameId (length ms) ms), w))))"

definition get_move :: "world \<Rightarrow> user \<Rightarrow> string \<Rightarrow> string \<Rightarrow> response \<times> world" where
  "get_move w usr gameId moveId =
     (case getGameById (games w) gameId of
        None \<Rightarrow> (Response 404 (ErrorBody ''Game not found''), w)
      | Some gm \<Rightarrow>
          if ownerId gm \<noteq> user_id usr then (Response 403 (ErrorBody ''Access denied''), w)
          else
            (case find (\<lambda>m. move_id m = moveId) (moves gm) of
               None \<Rightarrow> (Response 404 (ErrorBody ''Move not found''), w)
             | Some mv \<Rightarrow> (Response 200 (MoveOnly mv), w)))"

section \<open>The system as a transition relation\<close>

text \<open>
  The identifiers present in the store. \<open>uuidv4()\<close> is modelled as fresh: a step that
  draws an identifier draws one that the store does not hold.
\<close>

definition ids_of :: "world \<Rightarrow> string set" where
  "ids_of w =
     user_id ` set (users w) \<union> game_id ` set (games w) \<union>
     (\<Union>g \<in> set (games w). player_id ` set (players g) \<union> move_id ` set (moves g))"

text \<open>
  One step is one request to a route that changes the state, behind the middleware where
  the route is mounted behind it, or one event of a socket: the server accepts a
  connection on a socket not used before and the handler runs, to its end or to the
  exception of the URL constructor, the peer starts to close an OPEN socket (the
  library moves it to CLOSING), or a socket's connection ends (CLOSED, and the \<open>close\<close>
  event). The GET handlers return the state unchanged and are no steps.
\<close>

inductive step :: "world \<Rightarrow> world \<Rightarrow> bool" where
  s_register:
    "u3 \<notin> ids_of w \<Longrightarrow> step w (snd (post_register w reqBody u1 u2 u3 now))"
| s_post_games:
    "u \<notin> ids_of w \<Longrightarrow>
     step w (snd (apiKeyAuth w header (\<lambda>usr. post_games w usr reqBody u t1 t2)))"
| s_put_game:
    "step w (snd (apiKeyAuth w header (\<lambda>usr. put_game w usr gameId reqBody now)))"
| s_delete_game:
    "step w (snd (apiKeyAuth w header (\<lambda>usr. delete_game w usr gameId)))"
| s_post_players:
    "u \<notin> ids_of w \<Longrightarrow>
     step w (snd (apiKeyAuth w header (\<lambda>usr. post_players w usr gameId reqBody u t1 t2)))"
| s_delete_player:
    "step w (snd (apiKeyAuth w header (\<lambda>usr. delete_player w usr gameId pid now)))"
| s_post_moves:
    "u \<notin> ids_of w \<Longrightarrow>
     step w (snd (apiKeyAuth w header (\<lambda>usr. post_moves w usr gameId reqBody u t1 t2)))"
| s_connection:
    "readyState (sockets w h) = 0 \<Longrightarrow> step w (snd (on_connection h url w))"
| s_closing:
    "readyState (sockets w h) = 1 \<Longrightarrow> step w (set_readyState h 2 w)"
| s_closed:
    "readyState (sockets w h) = 1 \<or> readyState (sockets w h) = 2 \<Longrightarrow> step w (socket_closed h w)"

text \<open>The states reachable through the public interface from the empty stores.\<close>

definition reach :: "world \<Rightarrow> bool" where
  "reach w = step\<^sup>*\<^sup>* init w"

text \<open>The connections registered for a game, and the handles registered anywhere.\<close>

definition conns :: "world \<Rightarrow> string \<Rightarrow> connection list" where
  "conns w gameId = (case gameConnections w gameId of None \<Rightarrow> [] | Some cs \<Rightarrow> cs)"

definition registered :: "world \<Rightarrow> string \<Rightarrow> nat \<Rightarrow> bool" where
  "registered w gameId h = (h \<in> ws ` set (conns w gameId))"

text \<open>Invariants of the reachable states.\<close>

definition users_ok :: "world \<Rightarrow> bool" where
  "users_ok w = (\<forall>u \<in> set (users w). username u \<noteq> [] \<and> trim (username u) = username u)"

definition registry_ok :: "world \<Rightarrow> bool" where
  "registry_ok w =
     (\<forall>g. distinct (map ws (conns w g)) \<and>
          (\<forall>c \<in> set (conns w g).
             (readyState (sockets w (ws c)) = 1 \<or> readyState (sockets w (ws c)) = 2) \<and>
             onClose (sockets w (ws c)) = Some (g, conn_username c)))"

definition roster_ok :: "world \<Rightarrow> bool" where
  "roster_ok w =
     (\<forall>g \<in> set (games w). \<forall>p \<in> set (players g). \<forall>u \<in> set (users w).
        player_id p \<noteq> user_id u)"

section \<open>Sequences of move submissions\<close>





section \<open>The authorization policy in the spec's words\<close>

text \<open>
  The code has no function for the policy: each handler tests
  \<open>!isPlayer && !isOwner\<close> or \<open>game.ownerId !== req.user.id\<close> in line. The two
  predicates below are written from the spec, to be compared with those tests.
\<close>

definition isOwner :: "game \<Rightarrow> string \<Rightarrow> bool" where
  "isOwner gm uid = (ownerId gm = uid)"

definition isOwnerOrPlayer :: "game \<Rightarrow> string \<Rightarrow> bool" where
  "isOwnerOrPlayer gm uid = (isOwner gm uid \<or> uid \<in> set (map player_id (players gm)))"

section \<open>Auxiliary notions\<close>


text \<open>The game that \<open>PUT /games/:gameId\<close> by the owner leaves in place of \<open>g\<close>.\<close>

definition put_result :: "game \<Rightarrow> (string \<rightharpoonup> jsval) \<Rightarrow> string \<Rightarrow> game" where
  "put_result g reqBody now =
     g\<lparr>game_name := (if truthy (reqBody ''name'') then the_val (reqBody ''name'') else game_name g),
       status := (if truthy (reqBody ''status'') then the_val (reqBody ''status'') else status g),
       updatedAt := now\<rparr>"

text \<open>
  \<open>rt_same\<close>: the realtime layer is as it was, up to frames sent to OPEN sockets.
  \<open>db_same\<close>: the two files are as they were. \<open>user_ids\<close>, \<open>player_ids\<close> and \<open>pids\<close>:
  the identifiers of the users and of the players of all games. \<open>db_next\<close>: what one
  step may do to the files, namely add at most one user, with a fresh identifier and a
  trimmed, non-empty name, or at most one player identifier, a fresh one.
\<close>

definition rt_same :: "world \<Rightarrow> world \<Rightarrow> bool" where
  "rt_same w w' =
     (gameConnections w' = gameConnections w \<and>
      (\<forall>h. readyState (sockets w' h) = readyState (sockets w h) \<and>
           closeCode (sockets w' h) = closeCode (sockets w h) \<and>
           onClose (sockets w' h) = onClose (sockets w h) \<and>
           (readyState (sockets w h) \<noteq> 1 \<longrightarrow> sent (sockets w' h) = sent (sockets w h))))"

definition db_same :: "world \<Rightarrow> world \<Rightarrow> bool" where
  "db_same w w' = (users w' = users w \<and> games w' = games w)"

definition user_ids :: "world \<Rightarrow> string set" where
  "user_ids w = user_id ` set (users w)"

definition player_ids :: "world \<Rightarrow> string set" where
  "player_ids w = (\<Union>g \<in> set (games w). player_id ` set (players g))"

definition pids :: "game list \<Rightarrow> string set" where
  "pids gs = (\<Union>g \<in> set gs. player_id ` set (players g))"

definition db_next :: "world \<Rightarrow> world \<Rightarrow> bool" where
  "db_next w w' =
     ((users w' = users w \<or>
       (\<exists>usr. users w' = users w @ [usr] \<and> user_id usr \<notin> ids_of w \<and>
          username usr \<noteq> [] \<and> trim (username usr) = username usr) \<and>
       games w' = games w) \<and>
      (pids (games w') \<subseteq> pids (games w) \<or>
       users w' = users w \<and> (\<exists>u. u \<notin> ids_of w \<and> pids (games w') \<subseteq> insert u (pids (games w)))))"

text \<open>
  \<open>moves_ok\<close>: the moves of every game have pairwise distinct identifiers. \<open>owners\<close>:
  the games by identifier and owner.
\<close>

definition moves_ok :: "game list \<Rightarrow> bool" where
  "moves_ok gs = (\<forall>g \<in> set gs. distinct (map move_id (moves g)))"

definition owners :: "game list \<Rightarrow> (string \<times> string) set" where
  "owners gs = (\<lambda>g. (game_id g, ownerId g)) ` set gs"

section \<open>A scenario\<close>

text \<open>
  Alice and Bob register; Alice creates the game Chess and adds the player pippo; Alice
  connects two sockets to Chess, the second of which starts closing; Bob creates the
  game Go and connects a socket to it; Alice connects a third socket to Chess.
\<close>

definition ex1 :: world where
  "ex1 = snd (post_register init [''username'' \<mapsto> JStr '' alice ''] ''ka'' ''k-b'' ''ua'' ''t1'')"

definition ex2 :: world where
  "ex2 = snd (post_register ex1 [''username'' \<mapsto> JStr ''bob''] ''kc'' ''kd'' ''ub'' ''t2'')"

definition ex3 :: world where
  "ex3 = snd (apiKeyAuth ex2 (Some ''kakb'')
            (\<lambda>usr. post_games ex2 usr [''name'' \<mapsto> JStr ''Chess''] ''g1'' ''t3'' ''t3''))"

definition ex4 :: world where
  "ex4 = snd (apiKeyAuth ex3 (Some ''kakb'')
            (\<lambda>usr. post_players ex3 usr ''g1'' [''name'' \<mapsto> JStr ''pippo''] ''p1'' ''t4'' ''t4''))"

definition ex5 :: world where
  "ex5 = snd (on_connection 0 (Inr [(''apiKey'', ''kakb''), (''gameId'', ''g1'')]) ex4)"

definition ex6 :: world where
  "ex6 = snd (on_connection 1 (Inr [(''apiKey'', ''kakb''), (''gameId'', ''g1'')]) ex5)"

definition ex7 :: world where
  "ex7 = set_readyState 1 2 ex6"

definition ex8 :: world where
  "ex8 = snd (apiKeyAuth ex7 (Some ''kckd'')
            (\<lambda>usr. post_games ex7 usr [''name'' \<mapsto> JStr ''Go''] ''g2'' ''t5'' ''t5''))"

definition ex9 :: world where
  "ex9 = snd (on_connection 2 (Inr [(''gameId'', ''g2''), (''apiKey'', ''kckd'')]) ex8)"

definition ex10 :: world where
  "ex10 = snd (on_connection 3 (Inr [(''apiKey'', ''kakb''), (''gameId'', ''g1'')]) ex9)"

definition alice :: user where
  "alice = \<lparr>user_id = ''ua'', username = ''alice'', apiKey = ''kakb'', user_createdAt = ''t1''\<rparr>"

definition bob :: user where
  "bob = \<lparr>user_id = ''ub'', username = ''bob'', apiKey = ''kckd'', user_createdAt = ''t2''\<rparr>"

definition pippo :: player where
  "pippo = \<lparr>player_id = ''p1'', player_name = ''pippo'', joinedAt = ''t4''\<rparr>"

definition chess :: game where
  "chess = \<lparr>game_id = ''g1'', game_name = JStr ''Chess'', ownerId = ''ua'', players = [pippo],
            moves = [], status = JStr ''active'', createdAt = ''t3'', updatedAt = ''t4''\<rparr>"

definition go :: game where
  "go = \<lparr>game_id = ''g2'', game_name = JStr ''Go'', ownerId = ''ub'', players = [],
         moves = [], status = JStr ''active'', createdAt = ''t5'', updatedAt = ''t5''\<rparr>"

text \<open>
  A store written by hand, which no sequence of requests produces: the roster of the
  game holds a player whose identifier is Bob's user identifier.
\<close>

definition shared_game :: game where
  "shared_game = chess\<lparr>players := [pippo, \<lparr>player_id = ''ub'', player_name = ''bob'', joinedAt = ''t6''\<rparr>],
                        moves := [\<lparr>move_id = ''m1'', playerId = ''p1'', data = JObj [], timestamp = ''t7''\<rparr>]\<rparr>"

definition by_hand :: world where
  "by_hand = init\<lparr>users := [alice, bob], games := [shared_game]\<rparr>"

text \<open>The socket of a connection just admitted, and its entry in \<open>gameConnections\<close>.\<close>

definition greeted :: "string \<Rightarrow> jsval \<Rightarrow> string \<Rightarrow> socket" where
  "greeted gameId name uname =
     \<lparr>readyState = 1, sent = [Connected name gameId uname], closeCode = None,
      onClose = Some (gameId, uname)\<rparr>"

definition conn :: "nat \<Rightarrow> user \<Rightarrow> connection" where
  "conn h usr = \<lparr>ws = h, userId = user_id usr, conn_username = username usr\<rparr>"



section \<open>Lists and JavaScript values\<close>


lemma findIndex_SomeD:
  "findIndex P xs = Some i \<Longrightarrow> i < length xs \<and> P (xs ! i) \<and> (\<forall>j < i. \<not> P (xs ! j))"
proof (induction xs arbitrary: i)
  case Nil
  then show ?case by simp
next
  case (Cons x xs)
  show ?case
  proof (cases "P x")
    case True
    with Cons.prems show ?thesis by simp
  next
    case False
    with Cons.prems obtain k where k: "findIndex P xs = Some k" "i = Suc k"
      by auto
    from Cons.IH[OF k(1)] have "k < length xs" "P (xs ! k)" "\<forall>j < k. \<not> P (xs ! j)"
      by auto
    with False k show ?thesis
      by (auto simp: less_Suc_eq_0_disj)
  qed
qed

lemma find_findIndex:
  "find P xs = (case findIndex P xs of None \<Rightarrow> None | Some i \<Rightarrow> Some (xs ! i))"
  by (induction xs) (auto split: option.splits)

lemma find_eq_None: "find P xs = None \<longleftrightarrow> (\<forall>x \<in> set xs. \<not> P x)"
  by (induction xs) auto

lemma find_SomeD: "find P xs = Some x \<Longrightarrow> x \<in> set xs \<and> P x"
  by (induction xs) (auto split: if_splits)

lemma getGameById_findIndex:
  "getGameById gs gameId = Some g \<Longrightarrow>
     \<exists>i. findIndex (\<lambda>g. game_id g = gameId) gs = Some i \<and> i < length gs \<and> gs ! i = g \<and>
         game_id g = gameId"
  unfolding getGameById_def
  by (auto simp: find_findIndex split: option.splits dest: findIndex_SomeD)

lemma getGameById_update:
  "findIndex (\<lambda>g. game_id g = gameId) gs = Some i \<Longrightarrow> game_id g' = gameId \<Longrightarrow>
     getGameById (gs[i := g']) gameId = Some g'"
proof (induction gs arbitrary: i)
  case Nil
  then show ?case by simp
next
  case (Cons x xs)
  then show ?case
    by (cases i) (auto simp: getGameById_def split: if_splits)
qed

lemma isOwnerOrPlayer_test:
  "(\<not> list_ex (\<lambda>p. player_id p = uid) (players g) \<and> \<not> ownerId g = uid) \<longleftrightarrow> \<not> isOwnerOrPlayer g uid"
  by (auto simp: isOwnerOrPlayer_def isOwner_def list_ex_iff)

lemma truthy_string: "truthy v \<and> typeof v = ''string'' \<longleftrightarrow> (\<exists>s. v = Some (JStr s) \<and> s \<noteq> [])"
  by (cases v rule: truthy.cases) auto

lemma truthy_object:
  "truthy v \<and> typeof v = ''object'' \<longleftrightarrow> (\<exists>kvs. v = Some (JObj kvs)) \<or> (\<exists>xs. v = Some (JArr xs))"
  by (cases v rule: truthy.cases) auto

section \<open>What a broadcast and a handshake change\<close>

lemma deliver_frame [simp]:
  "users (deliver m c w) = users w"
  "games (deliver m c w) = games w"
  "gameConnections (deliver m c w) = gameConnections w"
  "readyState (sockets (deliver m c w) h) = readyState (sockets w h)"
  "closeCode (sockets (deliver m c w) h) = closeCode (sockets w h)"
  "onClose (sockets (deliver m c w) h) = onClose (sockets w h)"
  by (simp_all add: deliver_def ws_send_def)

lemma deliver_sent:
  "sent (sockets (deliver m c w) h) =
     sent (sockets w h) @ (if ws c = h \<and> readyState (sockets w h) = 1 then [m] else [])"
  by (simp add: deliver_def ws_send_def)

lemma fold_deliver_frame [simp]:
  "users (fold (deliver m) cs w) = users w"
  "games (fold (deliver m) cs w) = games w"
  "gameConnections (fold (deliver m) cs w) = gameConnections w"
  "readyState (sockets (fold (deliver m) cs w) h) = readyState (sockets w h)"
  "closeCode (sockets (fold (deliver m) cs w) h) = closeCode (sockets w h)"
  "onClose (sockets (fold (deliver m) cs w) h) = onClose (sockets w h)"
  by (induction cs arbitrary: w) simp_all

lemma fold_deliver_sent:
  "sent (sockets (fold (deliver m) cs w) h) =
     sent (sockets w h) @
     replicate (if readyState (sockets w h) = 1 then count_list (map ws cs) h else 0) m"
proof (induction cs arbitrary: w)
  case Nil
  then show ?case by simp
next
  case (Cons c cs)
  have "sent (sockets (fold (deliver m) (c # cs) w) h) =
        sent (sockets (deliver m c w) h) @
        replicate (if readyState (sockets w h) = 1 then count_list (map ws cs) h else 0) m"
    by (simp add: Cons.IH)
  also have "\<dots> = sent (sockets w h) @
        replicate (if readyState (sockets w h) = 1 then count_list (map ws (c # cs)) h else 0) m"
    by (simp add: deliver_sent)
  finally show ?case .
qed

lemma broadcast_frame [simp]:
  "users (broadcastToGame g m w) = users w"
  "games (broadcastToGame g m w) = games w"
  "gameConnections (broadcastToGame g m w) = gameConnections w"
  "readyState (sockets (broadcastToGame g m w) h) = readyState (sockets w h)"
  "closeCode (sockets (broadcastToGame g m w) h) = closeCode (sockets w h)"
  "onClose (sockets (broadcastToGame g m w) h) = onClose (sockets w h)"
  by (simp_all add: broadcastToGame_def split: option.splits)

lemma broadcast_sent:
  "sent (sockets (broadcastToGame g m w) h)
     = sent (sockets w h) @
       replicate (if readyState (sockets w h) = 1 then count_list (map ws (conns w g)) h else 0) m"
  by (simp add: broadcastToGame_def conns_def fold_deliver_sent split: option.splits)

lemma conns_broadcast [simp]: "conns (broadcastToGame g m w) g' = conns w g'"
  by (simp add: conns_def)

lemma admit_frame [simp]:
  "users (admit h usr gm gameId w) = users w"
  "games (admit h usr gm gameId w) = games w"
  by (simp_all add: admit_def Let_def ws_send_def ws_on_close_def split: option.splits)

lemma conns_admit:
  "conns (admit h usr gm gameId w) g =
     (if g = gameId
      then conns w g @ [\<lparr>ws = h, userId = user_id usr, conn_username = username usr\<rparr>]
      else conns w g)"
  by (simp add: admit_def Let_def ws_send_def ws_on_close_def conns_def split: option.splits)

lemma sockets_admit:
  "sockets (admit h usr gm gameId w) =
     (sockets w)(h := (sockets w h)\<lparr>sent := sent (sockets w h) @ [Connected (game_name gm) gameId (username usr)],
                                  onClose := Some (gameId, username usr)\<rparr>)"
  by (simp add: admit_def Let_def ws_send_def ws_on_close_def split: option.splits)

lemma ws_close_frame [simp]:
  "users (ws_close h c r w) = users w"
  "games (ws_close h c r w) = games w"
  "gameConnections (ws_close h c r w) = gameConnections w"
  "conns (ws_close h c r w) g = conns w g"
  "sockets (ws_close h c r w) = (sockets w)(h := (sockets w h)\<lparr>readyState := 2, closeCode := Some (c, r)\<rparr>)"
  by (simp_all add: ws_close_def conns_def)

lemma set_readyState_frame [simp]:
  "users (set_readyState h n w) = users w"
  "games (set_readyState h n w) = games w"
  "gameConnections (set_readyState h n w) = gameConnections w"
  "conns (set_readyState h n w) g = conns w g"
  "sockets (set_readyState h n w) = (sockets w)(h := (sockets w h)\<lparr>readyState := n\<rparr>)"
  by (simp_all add: set_readyState_def conns_def)

text \<open>The outcome of a handshake, by the first test that fails.\<close>

lemma handshake_cases:
  "handshake h a b w =
     (let w1 = set_readyState h 1 w in
      if a = None \<or> a = Some [] \<or> b = None \<or> b = Some []
      then ws_close h 4000 ''Missing apiKey or gameId parameter'' w1
      else (case getUserByApiKey (users w) (the a) of
              None \<Rightarrow> ws_close h 4001 ''Invalid API key'' w1
            | Some usr \<Rightarrow>
               (case getGameById (games w) (the b) of
                  None \<Rightarrow> ws_close h 4002 ''Game not found'' w1
                | Some gm \<Rightarrow>
                    if \<not> isOwnerOrPlayer gm (user_id usr)
                    then ws_close h 4003 ''Access denied: Not a player or owner of this game'' w1
                    else admit h usr gm (the b) w1)))"
  by (simp add: handshake_def Let_def isOwnerOrPlayer_test split: option.splits)

section \<open>What the store operations return\<close>

lemma addMoveToGame_found:
  "getGameById gs gameId = Some g \<Longrightarrow>
     \<exists>i. findIndex (\<lambda>g. game_id g = gameId) gs = Some i \<and> i < length gs \<and> gs ! i = g \<and>
         addMoveToGame gs gameId pid d u t1 t2 =
           (Some \<lparr>move_id = u, playerId = pid, data = d, timestamp = t1\<rparr>,
            gs[i := g\<lparr>moves := moves g @ [\<lparr>move_id = u, playerId = pid, data = d, timestamp = t1\<rparr>],
                       updatedAt := t2\<rparr>])"
  by (drule getGameById_findIndex) (auto simp: addMoveToGame_def Let_def)

lemma getGameMoves_addMove:
  "getGameById gs gameId = Some g \<Longrightarrow>
     getGameMoves (snd (addMoveToGame gs gameId pid d u t1 t2)) gameId =
       moves g @ [\<lparr>move_id = u, playerId = pid, data = d, timestamp = t1\<rparr>]"
proof -
  assume g: "getGameById gs gameId = Some g"
  let ?mv = "\<lparr>move_id = u, playerId = pid, data = d, timestamp = t1\<rparr>"
  from getGameById_findIndex[OF g] obtain i where
    i: "findIndex (\<lambda>g. game_id g = gameId) gs = Some i" "gs ! i = g" "game_id g = gameId"
    by blast
  have "snd (addMoveToGame gs gameId pid d u t1 t2) =
        gs[i := g\<lparr>moves := moves g @ [?mv], updatedAt := t2\<rparr>]"
    using i by (simp add: addMoveToGame_def Let_def)
  moreover have "getGameById (gs[i := g\<lparr>moves := moves g @ [?mv], updatedAt := t2\<rparr>]) gameId =
        Some (g\<lparr>moves := moves g @ [?mv], updatedAt := t2\<rparr>)"
    using i by (intro getGameById_update) simp_all
  ultimately show ?thesis
    by (simp add: getGameMoves_def)
qed

lemma assign_truthy:
  "(case (if truthy v then v else None) of None \<Rightarrow> d | Some n \<Rightarrow> n) =
     (if truthy v then the_val v else d)"
  by (cases v) simp_all

lemma put_result_fields [simp]:
  "game_id (put_result g b t) = game_id g"
  "ownerId (put_result g b t) = ownerId g"
  "players (put_result g b t) = players g"
  "moves (put_result g b t) = moves g"
  "createdAt (put_result g b t) = createdAt g"
  by (simp_all add: put_result_def)

lemma put_game_cases:
  "put_game w usr gameId reqBody now =
     (case getGameById (games w) gameId of
        None \<Rightarrow> (Response 404 (ErrorBody ''Game not found''), w)
      | Some g \<Rightarrow>
          if ownerId g \<noteq> user_id usr then (Response 403 (ErrorBody ''Access denied''), w)
          else
            (Response 200 (GameBody ''Game updated successfully'' (Some (put_result g reqBody now))),
             w\<lparr>games := (games w)[the (findIndex (\<lambda>g. game_id g = gameId) (games w)) :=
                            put_result g reqBody now]\<rparr>))"
proof (cases "getGameById (games w) gameId")
  case None
  then show ?thesis by (simp add: put_game_def)
next
  case (Some g)
  from getGameById_findIndex[OF Some] obtain i where
    i: "findIndex (\<lambda>g. game_id g = gameId) (games w) = Some i" "games w ! i = g"
    by blast
  show ?thesis
    using Some i
    by (simp add: put_game_def Let_def updateGame_def assign_def assign_truthy put_result_def)
qed

section \<open>trim\<close>

lemma dropWhile_hd_id: "xs = [] \<or> \<not> P (hd xs) \<Longrightarrow> dropWhile P xs = xs"
  by (cases xs) auto

lemma last_dropWhile: "dropWhile P xs \<noteq> [] \<Longrightarrow> last (dropWhile P xs) = last xs"
  by (induction xs) (auto split: if_splits)

lemma trim_idem: "trim (trim s) = trim s"
proof -
  define d where "d = dropWhile isWhiteSpace s"
  define e where "e = dropWhile isWhiteSpace (rev d)"
  have t: "trim s = rev e"
    by (simp add: trim_def d_def e_def)
  have hd: "rev e = [] \<or> \<not> isWhiteSpace (hd (rev e))"
  proof (cases "e = []")
    case True
    then show ?thesis by simp
  next
    case False
    then have "last e = last (rev d)"
      unfolding e_def by (rule last_dropWhile)
    moreover have dne: "d \<noteq> []"
      using False unfolding e_def by auto
    ultimately have "last e = hd d"
      by (simp add: last_rev)
    moreover from dne have "\<not> isWhiteSpace (hd d)"
      unfolding d_def by (rule hd_dropWhile)
    ultimately show ?thesis
      using False by (simp add: hd_rev)
  qed
  have "trim (rev e) = rev (dropWhile isWhiteSpace (rev (rev e)))"
    unfolding trim_def using dropWhile_hd_id[of "rev e" isWhiteSpace, OF hd] by simp
  also have "\<dots> = rev e"
    by (simp add: e_def dropWhile_idem)
  finally show ?thesis
    by (simp add: t)
qed

section \<open>Frames of the handlers\<close>

lemma apiKeyAuth_pres:
  "P w \<Longrightarrow> (\<And>usr. usr \<in> set (users w) \<Longrightarrow> P (snd (next usr))) \<Longrightarrow>
     P (snd (apiKeyAuth w header next))"
  by (auto simp: apiKeyAuth_def getUserByApiKey_def split: option.splits dest: find_SomeD)


lemma rt_same_refl [simp]: "rt_same w w"
  by (simp add: rt_same_def)

lemma rt_same_db [simp]: "rt_same w (w\<lparr>games := gs\<rparr>)" "rt_same w (w\<lparr>users := us\<rparr>)"
  by (simp_all add: rt_same_def)

lemma rt_same_broadcast: "rt_same w w1 \<Longrightarrow> rt_same w (broadcastToGame g m w1)"
  by (simp add: rt_same_def broadcast_sent)

lemma rt_same_post_register: "rt_same w (snd (post_register w b u1 u2 u3 t))"
  by (simp add: post_register_def Let_def split: sum.splits prod.splits)

lemma rt_same_post_games: "rt_same w (snd (post_games w usr b u t1 t2))"
  by (simp add: post_games_def Let_def split: prod.splits)

lemma rt_same_put_game: "rt_same w (snd (put_game w usr g b t))"
  by (simp add: put_game_cases Let_def split: option.splits)

lemma rt_same_delete_game: "rt_same w (snd (delete_game w usr g))"
  by (simp add: delete_game_def Let_def split: option.splits prod.splits)

lemma rt_same_post_players: "rt_same w (snd (post_players w usr g b u t1 t2))"
  by (simp add: post_players_def Let_def rt_same_broadcast split: option.splits prod.splits)

lemma rt_same_delete_player: "rt_same w (snd (delete_player w usr g p t))"
  by (simp add: delete_player_def Let_def rt_same_broadcast split: option.splits prod.splits)

lemma rt_same_post_moves: "rt_same w (snd (post_moves w usr g b u t1 t2))"
  by (simp add: post_moves_def Let_def rt_same_broadcast split: option.splits prod.splits)

lemma db_same_handshake: "db_same w (handshake h a b w)"
  by (simp add: db_same_def handshake_cases Let_def split: option.splits)

lemma db_same_set_readyState: "db_same w (set_readyState h n w)"
  by (simp add: db_same_def)

lemma snd_on_connection:
  "snd (on_connection h url w) =
     (case url of
        Inl message \<Rightarrow> set_readyState h 1 w
      | Inr params \<Rightarrow>
          handshake h (searchParams_get params ''apiKey'') (searchParams_get params ''gameId'') w)"
  by (simp add: on_connection_def split: sum.splits)

lemma db_same_on_connection: "db_same w (snd (on_connection h url w))"
  by (simp add: snd_on_connection db_same_handshake db_same_set_readyState split: sum.splits)

lemma close_listener_frame [simp]:
  "users (close_listener h g u w) = users w"
  "games (close_listener h g u w) = games w"
  by (simp_all add: close_listener_def Let_def split: option.splits)

lemma db_same_socket_closed: "db_same w (socket_closed h w)"
  by (simp add: db_same_def socket_closed_def Let_def split: option.splits prod.splits)

lemma rt_same_auth:
  "(\<And>usr. rt_same w (snd (next usr))) \<Longrightarrow> rt_same w (snd (apiKeyAuth w header next))"
  by (simp add: apiKeyAuth_def split: option.splits)

text \<open>A step is a request, which leaves the realtime layer alone, or an event of a socket,
  which leaves the store alone.\<close>

lemma searchParams_get_of:
  "searchParams_get
     ((case a of None \<Rightarrow> [] | Some k \<Rightarrow> [(''apiKey'', k)]) @
      (case b of None \<Rightarrow> [] | Some g \<Rightarrow> [(''gameId'', g)])) ''apiKey'' = a"
  "searchParams_get
     ((case a of None \<Rightarrow> [] | Some k \<Rightarrow> [(''apiKey'', k)]) @
      (case b of None \<Rightarrow> [] | Some g \<Rightarrow> [(''gameId'', g)])) ''gameId'' = b"
  by (simp_all add: searchParams_get_def split: option.splits)

lemma step_handshake:
  assumes "readyState (sockets w h) = 0"
  shows "step w (handshake h a b w)"
proof -
  let ?params = "(case a of None \<Rightarrow> [] | Some k \<Rightarrow> [(''apiKey'', k)]) @
      (case b of None \<Rightarrow> [] | Some g \<Rightarrow> [(''gameId'', g)])"
  have "step w (snd (on_connection h (Inr ?params) w))"
    using assms by (rule s_connection)
  then show ?thesis
    by (simp add: snd_on_connection searchParams_get_of)
qed

lemma step_cases:
  "step w w' \<Longrightarrow>
     rt_same w w' \<or>
     db_same w w' \<and>
       ((\<exists>h a b. readyState (sockets w h) = 0 \<and> w' = handshake h a b w) \<or>
        (\<exists>h. readyState (sockets w h) = 0 \<and> w' = set_readyState h 1 w) \<or>
        (\<exists>h. readyState (sockets w h) = 1 \<and> w' = set_readyState h 2 w) \<or>
        (\<exists>h. (readyState (sockets w h) = 1 \<or> readyState (sockets w h) = 2) \<and>
             w' = socket_closed h w))"
proof (induction rule: step.induct)
  case (s_register u3 w reqBody u1 u2 now)
  then show ?case by (simp add: rt_same_post_register)
next
  case (s_post_games u w header reqBody t1 t2)
  show ?case by (rule disjI1, rule rt_same_auth, rule rt_same_post_games)
next
  case (s_put_game w header gameId reqBody now)
  show ?case by (rule disjI1, rule rt_same_auth, rule rt_same_put_game)
next
  case (s_delete_game w header gameId)
  show ?case by (rule disjI1, rule rt_same_auth, rule rt_same_delete_game)
next
  case (s_post_players u w header gameId reqBody t1 t2)
  show ?case by (rule disjI1, rule rt_same_auth, rule rt_same_post_players)
next
  case (s_delete_player w header gameId pid now)
  show ?case by (rule disjI1, rule rt_same_auth, rule rt_same_delete_player)
next
  case (s_post_moves u w header gameId reqBody t1 t2)
  show ?case by (rule disjI1, rule rt_same_auth, rule rt_same_post_moves)
next
  case (s_connection w h url)
  show ?case
  proof (cases url)
    case (Inl message)
    with s_connection show ?thesis
      by (auto simp: snd_on_connection db_same_set_readyState)
  next
    case (Inr params)
    with s_connection show ?thesis
      by (auto simp: snd_on_connection db_same_handshake)
  qed
next
  case (s_closing w h)
  then show ?case by (auto simp: db_same_set_readyState)
next
  case (s_closed w h)
  then show ?case by (auto simp: db_same_socket_closed)
qed

section \<open>Removing a connection\<close>

lemma set_splice1: "set (splice1 i xs) \<subseteq> set xs"
  unfolding splice1_def by (auto dest: in_set_takeD in_set_dropD)

lemma splice1_Cons [simp]: "splice1 0 (x # xs) = xs" "splice1 (Suc i) (x # xs) = x # splice1 i xs"
  by (simp_all add: splice1_def)

lemma remove_first_filter:
  "distinct (map f xs) \<Longrightarrow>
     (case findIndex (\<lambda>c. f c = h) xs of None \<Rightarrow> xs | Some i \<Rightarrow> splice1 i xs) =
       filter (\<lambda>c. f c \<noteq> h) xs"
proof (induction xs)
  case Nil
  then show ?case by simp
next
  case (Cons x xs)
  show ?case
  proof (cases "f x = h")
    case True
    from Cons.prems have "f x \<notin> f ` set xs"
      by simp
    with True have "\<forall>c \<in> set xs. f c \<noteq> h"
      by blast
    then have "filter (\<lambda>c. f c \<noteq> h) xs = xs"
      by (simp add: filter_id_conv)
    with True show ?thesis by simp
  next
    case False
    with Cons show ?thesis
      by (simp split: option.splits)
  qed
qed

lemma conns_close_listener:
  "conns (close_listener h g u w) g' =
     (if g' = g
      then (case findIndex (\<lambda>c. ws c = h) (conns w g) of
              None \<Rightarrow> conns w g | Some i \<Rightarrow> splice1 i (conns w g))
      else conns w g')"
  by (simp add: close_listener_def Let_def conns_def split: option.splits)

lemma sockets_close_listener:
  "readyState (sockets (close_listener h g u w) k) = readyState (sockets w k)"
  "closeCode (sockets (close_listener h g u w) k) = closeCode (sockets w k)"
  "onClose (sockets (close_listener h g u w) k) = onClose (sockets w k)"
  by (simp_all add: close_listener_def Let_def split: option.splits)

section \<open>The registry invariant\<close>

lemma registry_okD:
  "registry_ok w \<Longrightarrow> c \<in> set (conns w g) \<Longrightarrow>
     (readyState (sockets w (ws c)) = 1 \<or> readyState (sockets w (ws c)) = 2) \<and>
     onClose (sockets w (ws c)) = Some (g, conn_username c)"
  by (simp add: registry_ok_def)

lemma registry_ok_distinct: "registry_ok w \<Longrightarrow> distinct (map ws (conns w g))"
  by (simp add: registry_ok_def)

lemma registry_ok_init: "registry_ok init"
  by (simp add: registry_ok_def init_def conns_def)

lemma registry_ok_rt_same: "registry_ok w \<Longrightarrow> rt_same w w' \<Longrightarrow> registry_ok w'"
  by (simp add: registry_ok_def rt_same_def conns_def)

lemma registry_ok_closing:
  "registry_ok w \<Longrightarrow> readyState (sockets w h) = 1 \<Longrightarrow> registry_ok (set_readyState h 2 w)"
  by (auto simp: registry_ok_def)

lemma registry_ok_unregistered:
  assumes ok: "registry_ok w" and un: "\<forall>g. h \<notin> ws ` set (conns w g)"
    and cs: "\<forall>g. conns w' g = conns w g" and ss: "\<forall>k. k \<noteq> h \<longrightarrow> sockets w' k = sockets w k"
  shows "registry_ok w'"
  unfolding registry_ok_def
proof (intro allI conjI ballI)
  fix g
  show "distinct (map ws (conns w' g))"
    using ok cs by (simp add: registry_ok_def)
  fix c assume c: "c \<in> set (conns w' g)"
  then have cw: "c \<in> set (conns w g)" using cs by simp
  with un have "ws c \<noteq> h" by auto
  with ss have "sockets w' (ws c) = sockets w (ws c)" by simp
  with registry_okD[OF ok cw]
  show "readyState (sockets w' (ws c)) = 1 \<or> readyState (sockets w' (ws c)) = 2"
    and "onClose (sockets w' (ws c)) = Some (g, conn_username c)"
    by simp_all
qed

lemma fresh_unregistered:
  "registry_ok w \<Longrightarrow> readyState (sockets w h) = 0 \<Longrightarrow> h \<notin> ws ` set (conns w g)"
  by (auto dest: registry_okD)

lemma registry_ok_connection:
  assumes ok: "registry_ok w" and fresh: "readyState (sockets w h) = 0"
  shows "registry_ok (handshake h a b w)"
proof -
  have un: "\<forall>g. h \<notin> ws ` set (conns w g)"
    using fresh_unregistered[OF ok fresh] by blast
  have closed: "registry_ok (ws_close h code r (set_readyState h 1 w))" for code r
    by (rule registry_ok_unregistered[OF ok un]) simp_all
  have admitted: "registry_ok (admit h usr gm gameId (set_readyState h 1 w))" for usr gm gameId
    unfolding registry_ok_def
  proof (intro allI conjI ballI)
    fix g
    show "distinct (map ws (conns (admit h usr gm gameId (set_readyState h 1 w)) g))"
      using registry_ok_distinct[OF ok, of g] un by (auto simp: conns_admit)
    fix c assume c: "c \<in> set (conns (admit h usr gm gameId (set_readyState h 1 w)) g)"
    show "readyState (sockets (admit h usr gm gameId (set_readyState h 1 w)) (ws c)) = 1 \<or>
          readyState (sockets (admit h usr gm gameId (set_readyState h 1 w)) (ws c)) = 2"
      using c registry_okD[OF ok, of c g]
      by (auto simp: conns_admit sockets_admit split: if_splits)
    show "onClose (sockets (admit h usr gm gameId (set_readyState h 1 w)) (ws c)) =
          Some (g, conn_username c)"
      using c registry_okD[OF ok, of c g] un
      by (auto simp: conns_admit sockets_admit split: if_splits)
  qed
  show ?thesis
    using closed admitted
    by (simp add: handshake_cases Let_def split: option.splits)
qed


lemma socket_closed_sockets:
  "readyState (sockets (socket_closed h w) k) = (if k = h then 3 else readyState (sockets w k))"
  "closeCode (sockets (socket_closed h w) k) = closeCode (sockets w k)"
  "onClose (sockets (socket_closed h w) k) = onClose (sockets w k)"
  by (simp_all add: socket_closed_def Let_def sockets_close_listener split: option.splits)

lemma socket_closed_conns:
  assumes ok: "registry_ok w"
  shows "conns (socket_closed h w) g' = filter (\<lambda>c. ws c \<noteq> h) (conns w g')"
proof (cases "onClose (sockets w h)")
  case None
  have "\<forall>c \<in> set (conns w g'). ws c \<noteq> h"
    using registry_okD[OF ok, of _ g'] None by auto
  then have "filter (\<lambda>c. ws c \<noteq> h) (conns w g') = conns w g'"
    by (simp add: filter_id_conv)
  with None show ?thesis
    by (simp add: socket_closed_def Let_def)
next
  case (Some gu)
  obtain g u where gu: "gu = (g, u)" by (cases gu)
  have eq: "socket_closed h w = close_listener h g u (set_readyState h 3 w)"
    using Some gu by (simp add: socket_closed_def Let_def)
  show ?thesis
  proof (cases "g' = g")
    case True
    show ?thesis
      using remove_first_filter[OF registry_ok_distinct[OF ok, of g], of h] True
      by (simp add: eq conns_close_listener cong: option.case_cong)
  next
    case False
    have "\<forall>c \<in> set (conns w g'). ws c \<noteq> h"
      using registry_okD[OF ok, of _ g'] Some gu False by auto
    then have "filter (\<lambda>c. ws c \<noteq> h) (conns w g') = conns w g'"
      by (simp add: filter_id_conv)
    with False show ?thesis
      by (simp add: eq conns_close_listener)
  qed
qed

lemma registry_ok_closed:
  assumes ok: "registry_ok w"
  shows "registry_ok (socket_closed h w)"
  unfolding registry_ok_def
proof (intro allI conjI ballI)
  fix g
  show "distinct (map ws (conns (socket_closed h w) g))"
    using registry_ok_distinct[OF ok, of g]
    by (simp add: socket_closed_conns[OF ok] distinct_map_filter)
  fix c assume "c \<in> set (conns (socket_closed h w) g)"
  then have c: "c \<in> set (conns w g)" "ws c \<noteq> h"
    by (simp_all add: socket_closed_conns[OF ok])
  from registry_okD[OF ok c(1)] c(2)
  show "readyState (sockets (socket_closed h w) (ws c)) = 1 \<or>
        readyState (sockets (socket_closed h w) (ws c)) = 2"
    and "onClose (sockets (socket_closed h w) (ws c)) = Some (g, conn_username c)"
    by (simp_all add: socket_closed_sockets)
qed

lemma registry_ok_opened:
  assumes ok: "registry_ok w" and fresh: "readyState (sockets w h) = 0"
  shows "registry_ok (set_readyState h 1 w)"
proof -
  have un: "\<forall>g. h \<notin> ws ` set (conns w g)"
    using fresh_unregistered[OF ok fresh] by blast
  show ?thesis
    by (rule registry_ok_unregistered[OF ok un]) (simp_all add: conns_def)
qed

lemma registry_ok_step: "step w w' \<Longrightarrow> registry_ok w \<Longrightarrow> registry_ok w'"
  by (drule step_cases)
     (auto intro: registry_ok_rt_same registry_ok_connection registry_ok_opened
        registry_ok_closing registry_ok_closed)

lemma registry_ok_steps: "step\<^sup>*\<^sup>* w w' \<Longrightarrow> registry_ok w \<Longrightarrow> registry_ok w'"
  by (induction rule: rtranclp_induct) (auto intro: registry_ok_step)

lemma reach_registry_ok: "reach w \<Longrightarrow> registry_ok w"
  unfolding reach_def by (erule registry_ok_steps) (rule registry_ok_init)

lemma reach_steps: "reach w \<Longrightarrow> step\<^sup>*\<^sup>* w w' \<Longrightarrow> reach w'"
  unfolding reach_def by (rule rtranclp_trans)

lemma reach_step: "reach w \<Longrightarrow> step w w' \<Longrightarrow> reach w'"
  unfolding reach_def by (rule rtranclp.rtrancl_into_rtrancl)

lemma reach_init: "reach init"
  by (simp add: reach_def)

lemma handshake_other:
  "k \<noteq> h \<Longrightarrow> sockets (handshake h a b w) k = sockets w k"
  by (simp add: handshake_cases Let_def sockets_admit split: option.splits)

text \<open>
  The life of a socket once accepted: OPEN to CLOSING to CLOSED, or OPEN to CLOSED; its
  listener is the one it had when the handler returned.
\<close>

lemma socket_step:
  assumes st: "step w w'" and acc: "readyState (sockets w h) \<noteq> 0"
  shows "(readyState (sockets w' h) = readyState (sockets w h) \<or>
          readyState (sockets w h) = 1 \<and> readyState (sockets w' h) = 2 \<or>
          (readyState (sockets w h) = 1 \<or> readyState (sockets w h) = 2) \<and>
            readyState (sockets w' h) = 3) \<and>
         onClose (sockets w' h) = onClose (sockets w h)"
proof -
  from step_cases[OF st] consider
      (rest) "rt_same w w'"
    | (conn) k a b where "readyState (sockets w k) = 0" "w' = handshake k a b w"
    | (opened) k where "readyState (sockets w k) = 0" "w' = set_readyState k 1 w"
    | (closing) k where "readyState (sockets w k) = 1" "w' = set_readyState k 2 w"
    | (closed) k where "readyState (sockets w k) = 1 \<or> readyState (sockets w k) = 2"
        "w' = socket_closed k w"
    by blast
  then show ?thesis
  proof cases
    case rest
    then show ?thesis by (simp add: rt_same_def)
  next
    case conn
    with acc have "h \<noteq> k" by auto
    with conn show ?thesis by (simp add: handshake_other)
  next
    case opened
    with acc have "h \<noteq> k" by auto
    with opened show ?thesis by simp
  next
    case closing
    then show ?thesis by (cases "h = k") simp_all
  next
    case closed
    then show ?thesis by (cases "h = k") (auto simp: socket_closed_sockets)
  qed
qed



lemma unheard_step:
  "step w w' \<Longrightarrow> readyState (sockets w h) \<noteq> 0 \<and> onClose (sockets w h) = None \<Longrightarrow>
     readyState (sockets w' h) \<noteq> 0 \<and> onClose (sockets w' h) = None"
  using socket_step[of w w' h] by auto

lemma unheard_steps:
  "step\<^sup>*\<^sup>* w w' \<Longrightarrow> readyState (sockets w h) \<noteq> 0 \<and> onClose (sockets w h) = None \<Longrightarrow>
     readyState (sockets w' h) \<noteq> 0 \<and> onClose (sockets w' h) = None"
  by (induction rule: rtranclp_induct) (auto dest: unheard_step)

section \<open>Sockets not yet accepted\<close>

lemma handshake_self:
  "readyState (sockets (handshake h a b w) h) = 1 \<or>
   readyState (sockets (handshake h a b w) h) = 2"
  by (simp add: handshake_cases Let_def sockets_admit split: option.splits)

lemma socket_closed_sent:
  "readyState (sockets w k) \<noteq> 1 \<Longrightarrow>
     sent (sockets (socket_closed h w) k) = sent (sockets w k)"
  by (simp add: socket_closed_def Let_def close_listener_def broadcast_sent
      split: option.splits)

lemma pristine_step:
  assumes st: "step w w'" and p: "\<forall>h. readyState (sockets w h) = 0 \<longrightarrow> sockets w h = new_socket"
  shows "\<forall>h. readyState (sockets w' h) = 0 \<longrightarrow> sockets w' h = new_socket"
proof (intro allI impI)
  fix h assume z: "readyState (sockets w' h) = 0"
  from step_cases[OF st] consider
      (rest) "rt_same w w'"
    | (conn) k a b where "readyState (sockets w k) = 0" "w' = handshake k a b w"
    | (opened) k where "readyState (sockets w k) = 0" "w' = set_readyState k 1 w"
    | (closing) k where "readyState (sockets w k) = 1" "w' = set_readyState k 2 w"
    | (closed) k where "readyState (sockets w k) = 1 \<or> readyState (sockets w k) = 2"
        "w' = socket_closed k w"
    by blast
  then show "sockets w' h = new_socket"
  proof cases
    case rest
    with z have z0: "readyState (sockets w h) = 0"
      by (simp add: rt_same_def)
    with rest have "sockets w' h = sockets w h"
      by (intro socket.equality) (simp_all add: rt_same_def)
    moreover from z0 p have "sockets w h = new_socket" by blast
    ultimately show ?thesis by simp
  next
    case conn
    with z handshake_self[of k a b w] have "h \<noteq> k" by auto
    with conn z have "sockets w' h = sockets w h" "readyState (sockets w h) = 0"
      by (simp_all add: handshake_other)
    with p show ?thesis by metis
  next
    case opened
    with z have "h \<noteq> k" by auto
    with opened z have "sockets w' h = sockets w h" "readyState (sockets w h) = 0"
      by simp_all
    with p show ?thesis by metis
  next
    case closing
    with z have "h \<noteq> k" by auto
    with closing z have "sockets w' h = sockets w h" "readyState (sockets w h) = 0"
      by simp_all
    with p show ?thesis by metis
  next
    case closed
    with z have hk: "h \<noteq> k" by (auto simp: socket_closed_sockets)
    with closed z have z0: "readyState (sockets w h) = 0"
      by (simp add: socket_closed_sockets)
    with closed hk have "sockets w' h = sockets w h"
      by (intro socket.equality) (simp_all add: socket_closed_sockets socket_closed_sent)
    with z0 p show ?thesis by metis
  qed
qed

lemma reach_pristine: "reach w \<Longrightarrow> readyState (sockets w h) = 0 \<Longrightarrow> sockets w h = new_socket"
proof -
  assume "reach w"
  then have "\<forall>h. readyState (sockets w h) = 0 \<longrightarrow> sockets w h = new_socket"
    unfolding reach_def
    by (induction rule: rtranclp_induct) (simp_all add: init_def pristine_step)
  then show "readyState (sockets w h) = 0 \<Longrightarrow> sockets w h = new_socket"
    by simp
qed

section \<open>The store under the requests\<close>

lemma player_ids_pids: "player_ids w = pids (games w)"
  by (simp add: player_ids_def pids_def)

lemma pids_append [simp]: "pids (gs @ [g]) = pids gs \<union> player_id ` set (players g)"
  by (auto simp: pids_def)

lemma pids_update: "pids (gs[i := g]) \<subseteq> pids gs \<union> player_id ` set (players g)"
proof
  fix x assume "x \<in> pids (gs[i := g])"
  then obtain g' where g': "g' \<in> set (gs[i := g])" "x \<in> player_id ` set (players g')"
    by (auto simp: pids_def)
  from g'(1) have "g' = g \<or> g' \<in> set gs"
    using set_update_subset_insert[of gs i g] by auto
  with g'(2) show "x \<in> pids gs \<union> player_id ` set (players g)"
    by (auto simp: pids_def)
qed

lemma pids_splice1: "pids (splice1 i gs) \<subseteq> pids gs"
  using set_splice1[of i gs] by (auto simp: pids_def)

lemma pids_nth: "i < length gs \<Longrightarrow> player_id ` set (players (gs ! i)) \<subseteq> pids gs"
  unfolding pids_def using nth_mem[of i gs] by blast

lemma ids_of_sub: "user_ids w \<subseteq> ids_of w" "player_ids w \<subseteq> ids_of w"
  by (auto simp: user_ids_def player_ids_def ids_of_def)

lemma roster_ok_iff: "roster_ok w \<longleftrightarrow> user_ids w \<inter> player_ids w = {}"
proof
  assume "roster_ok w"
  then show "user_ids w \<inter> player_ids w = {}"
    unfolding roster_ok_def user_ids_def player_ids_def by (auto; metis)
next
  assume d: "user_ids w \<inter> player_ids w = {}"
  show "roster_ok w"
    unfolding roster_ok_def
  proof (intro ballI)
    fix g p u assume "g \<in> set (games w)" "p \<in> set (players g)" "u \<in> set (users w)"
    then have "player_id p \<in> player_ids w" "user_id u \<in> user_ids w"
      unfolding user_ids_def player_ids_def by blast+
    with d show "player_id p \<noteq> user_id u" by auto
  qed
qed

text \<open>What each request does to the users and to the identifiers of players.\<close>

lemma users_post_register:
  "users (snd (post_register w b u1 u2 u3 t)) = users w \<or>
   (\<exists>usr. users (snd (post_register w b u1 u2 u3 t)) = users w @ [usr] \<and> user_id usr = u3 \<and>
      username usr \<noteq> [] \<and> trim (username usr) = username usr)"
  by (auto simp: post_register_def registerUser_def Let_def trim_idem split: sum.splits)

lemma games_post_register [simp]: "games (snd (post_register w b u1 u2 u3 t)) = games w"
  by (simp add: post_register_def Let_def split: sum.splits prod.splits)

lemma users_rest [simp]:
  "users (snd (post_games w usr b u t1 t2)) = users w"
  "users (snd (put_game w usr g b t)) = users w"
  "users (snd (delete_game w usr g)) = users w"
  "users (snd (post_players w usr g b u t1 t2)) = users w"
  "users (snd (delete_player w usr g p t)) = users w"
  "users (snd (post_moves w usr g b u t1 t2)) = users w"
  by (simp_all add: post_games_def put_game_cases delete_game_def post_players_def
      delete_player_def post_moves_def Let_def split: option.splits prod.splits)

lemma pids_post_games: "pids (games (snd (post_games w usr b u t1 t2))) \<subseteq> pids (games w)"
  by (simp add: post_games_def createGame_def Let_def)

lemma pids_put_game: "pids (games (snd (put_game w usr g b t))) \<subseteq> pids (games w)"
proof (cases "getGameById (games w) g")
  case None
  then show ?thesis by (simp add: put_game_cases)
next
  case (Some gm)
  from getGameById_findIndex[OF Some] obtain i where
    i: "findIndex (\<lambda>x. game_id x = g) (games w) = Some i" "i < length (games w)" "games w ! i = gm"
    by blast
  have "pids ((games w)[i := put_result gm b t]) \<subseteq> pids (games w)"
    using pids_update[of "games w" i "put_result gm b t"] pids_nth[OF i(2)] i(3) by auto
  with Some i show ?thesis by (simp add: put_game_cases)
qed

lemma pids_delete_game: "pids (games (snd (delete_game w usr g))) \<subseteq> pids (games w)"
  by (simp add: delete_game_def deleteGame_def pids_splice1 split: option.splits)

lemma pids_post_players:
  "pids (games (snd (post_players w usr g b u t1 t2))) \<subseteq> insert u (pids (games w))"
proof (cases "findIndex (\<lambda>x. game_id x = g) (games w)")
  case None
  then show ?thesis
    by (auto simp: post_players_def addPlayerToGame_def Let_def split: option.splits)
next
  case (Some i)
  then have i: "i < length (games w)" by (auto dest: findIndex_SomeD)
  let ?g = "(games w ! i)\<lparr>players := players (games w ! i) @
      [\<lparr>player_id = u, player_name = trim (the_str (b ''name'')), joinedAt = t1\<rparr>], updatedAt := t2\<rparr>"
  have "pids ((games w)[i := ?g]) \<subseteq> insert u (pids (games w))"
    using pids_update[of "games w" i ?g] pids_nth[OF i] by auto
  with Some show ?thesis
    by (auto simp: post_players_def addPlayerToGame_def Let_def split: option.splits)
qed

lemma pids_delete_player: "pids (games (snd (delete_player w usr g p t))) \<subseteq> pids (games w)"
proof (cases "findIndex (\<lambda>x. game_id x = g) (games w)")
  case None
  then show ?thesis
    by (auto simp: delete_player_def removePlayerFromGame_def Let_def split: option.splits)
next
  case (Some i)
  then have i: "i < length (games w)" by (auto dest: findIndex_SomeD)
  have "pids ((games w)[i := (games w ! i)\<lparr>players := splice1 j (players (games w ! i)),
      updatedAt := t\<rparr>]) \<subseteq> pids (games w)" for j
    using pids_update[of "games w" i "(games w ! i)\<lparr>players := splice1 j (players (games w ! i)),
      updatedAt := t\<rparr>"] pids_nth[OF i] set_splice1[of j "players (games w ! i)"]
    by auto
  with Some show ?thesis
    by (auto simp: delete_player_def removePlayerFromGame_def Let_def split: option.splits)
qed

lemma pids_post_moves: "pids (games (snd (post_moves w usr g b u t1 t2))) \<subseteq> pids (games w)"
proof (cases "findIndex (\<lambda>x. game_id x = g) (games w)")
  case None
  then show ?thesis
    by (auto simp: post_moves_def addMoveToGame_def Let_def split: option.splits)
next
  case (Some i)
  then have i: "i < length (games w)" by (auto dest: findIndex_SomeD)
  have "pids ((games w)[i := (games w ! i)\<lparr>moves := ms, updatedAt := t\<rparr>]) \<subseteq> pids (games w)" for ms t
    using pids_update[of "games w" i "(games w ! i)\<lparr>moves := ms, updatedAt := t\<rparr>"] pids_nth[OF i]
    by auto
  with Some show ?thesis
    by (auto simp: post_moves_def addMoveToGame_def Let_def split: option.splits)
qed


lemma db_next_refl: "db_next w w"
  by (simp add: db_next_def)

lemma db_next_auth:
  "(\<And>usr. db_next w (snd (next usr))) \<Longrightarrow> db_next w (snd (apiKeyAuth w header next))"
  by (simp add: apiKeyAuth_def db_next_refl split: option.splits)

lemma db_next_step: "step w w' \<Longrightarrow> db_next w w'"
proof (induction rule: step.induct)
  case (s_register u3 w reqBody u1 u2 now)
  with users_post_register[of w reqBody u1 u2 u3 now] show ?case
    by (auto simp: db_next_def)
next
  case (s_post_games u w header reqBody t1 t2)
  show ?case
    by (rule db_next_auth) (simp add: db_next_def pids_post_games)
next
  case (s_put_game w header gameId reqBody now)
  show ?case
    by (rule db_next_auth) (simp add: db_next_def pids_put_game)
next
  case (s_delete_game w header gameId)
  show ?case
    by (rule db_next_auth) (simp add: db_next_def pids_delete_game)
next
  case (s_post_players u w header gameId reqBody t1 t2)
  have "db_next w (snd (post_players w usr gameId reqBody u t1 t2))" for usr
  proof -
    have "users (snd (post_players w usr gameId reqBody u t1 t2)) = users w"
      by simp
    moreover have "\<exists>x. x \<notin> ids_of w \<and>
        pids (games (snd (post_players w usr gameId reqBody u t1 t2))) \<subseteq> insert x (pids (games w))"
      using s_post_players pids_post_players by blast
    ultimately show ?thesis
      unfolding db_next_def by blast
  qed
  then show ?case by (rule db_next_auth)
next
  case (s_delete_player w header gameId pid now)
  show ?case
    by (rule db_next_auth) (simp add: db_next_def pids_delete_player)
next
  case (s_post_moves u w header gameId reqBody t1 t2)
  show ?case
    by (rule db_next_auth) (simp add: db_next_def pids_post_moves)
next
  case (s_connection w h url)
  show ?case
    using db_same_on_connection[of w h url]
    by (simp add: db_next_def db_same_def)
next
  case (s_closing w h)
  show ?case by (simp add: db_next_def)
next
  case (s_closed w h)
  show ?case
    using db_same_socket_closed[of w h] by (simp add: db_next_def db_same_def)
qed

lemma users_ok_step:
  assumes st: "step w w'" and ok: "users_ok w"
  shows "users_ok w'"
proof -
  from db_next_step[OF st] consider "users w' = users w"
    | usr where "users w' = users w @ [usr]" "username usr \<noteq> []" "trim (username usr) = username usr"
    unfolding db_next_def by blast
  then show ?thesis
    using ok by cases (simp_all add: users_ok_def)
qed

lemma users_ok_init: "users_ok init"
  by (simp add: users_ok_def init_def)

lemma reach_users_ok: "reach w \<Longrightarrow> users_ok w"
  unfolding reach_def
  by (induction rule: rtranclp_induct) (simp_all add: users_ok_init users_ok_step)

lemma roster_ok_step:
  assumes st: "step w w'" and ok: "roster_ok w"
  shows "roster_ok w'"
proof -
  from ok have d: "user_ids w \<inter> pids (games w) = {}"
    by (simp add: roster_ok_iff player_ids_pids)
  from db_next_step[OF st] have
    u: "user_ids w' = user_ids w \<or>
        (\<exists>u. u \<notin> ids_of w \<and> user_ids w' = insert u (user_ids w)) \<and> games w' = games w"
    and p: "pids (games w') \<subseteq> pids (games w) \<or>
        user_ids w' = user_ids w \<and> (\<exists>u. u \<notin> ids_of w \<and> pids (games w') \<subseteq> insert u (pids (games w)))"
    by (auto simp: db_next_def user_ids_def)
  have sub: "user_ids w \<subseteq> ids_of w" "pids (games w) \<subseteq> ids_of w"
    using ids_of_sub[of w] by (simp_all add: player_ids_pids)
  from u p d sub have "user_ids w' \<inter> pids (games w') = {}"
    by (elim disjE conjE exE) auto
  then show ?thesis
    by (simp add: roster_ok_iff player_ids_pids)
qed

lemma roster_ok_init: "roster_ok init"
  by (simp add: roster_ok_def init_def)

lemma reach_roster_ok: "reach w \<Longrightarrow> roster_ok w"
  unfolding reach_def
  by (induction rule: rtranclp_induct) (simp_all add: roster_ok_init roster_ok_step)

section \<open>Consequences of the invariants\<close>

lemma count_list_distinct: "distinct xs \<Longrightarrow> count_list xs x = (if x \<in> set xs then 1 else 0)"
  by (induction xs) auto

lemma registered_exclusive:
  assumes ok: "registry_ok w" and a: "registered w g h" and b: "registered w g' h"
  shows "g' = g"
proof -
  from a obtain c where c: "c \<in> set (conns w g)" "ws c = h"
    unfolding registered_def by auto
  from b obtain c' where c': "c' \<in> set (conns w g')" "ws c' = h"
    unfolding registered_def by auto
  from registry_okD[OF ok c(1)] registry_okD[OF ok c'(1)] c(2) c'(2)
  show ?thesis by simp
qed

lemma broadcast_sent_ok:
  "registry_ok w \<Longrightarrow>
     sent (sockets (broadcastToGame g m w) h) =
       sent (sockets w h) @ (if registered w g h \<and> readyState (sockets w h) = 1 then [m] else [])"
  by (simp add: broadcast_sent count_list_distinct registry_ok_distinct registered_def)

lemma addPlayerToGame_found:
  "getGameById gs gameId = Some g \<Longrightarrow>
     fst (addPlayerToGame gs gameId name u t1 t2) =
       Some \<lparr>player_id = u, player_name = name, joinedAt = t1\<rparr>"
  by (drule getGameById_findIndex) (auto simp: addPlayerToGame_def Let_def)

lemma post_players_created:
  "getGameById (games w) gameId = Some g \<Longrightarrow> ownerId g = user_id usr \<Longrightarrow>
   truthy (reqBody ''name'') \<Longrightarrow> typeof (reqBody ''name'') = ''string'' \<Longrightarrow>
   trim (the_str (reqBody ''name'')) \<noteq> [] \<Longrightarrow>
     status_code (fst (post_players w usr gameId reqBody u t1 t2)) = 201"
  by (simp add: post_players_def Let_def split: prod.splits)

lemma post_players_pair:
  "post_players w usr gameId reqBody u t1 t2 =
     (fst (post_players w usr gameId reqBody u t1 t2), snd (post_players w usr gameId reqBody u t1 t2))"
  by simp



lemma unregistered_unheard:
  "registry_ok w \<Longrightarrow> onClose (sockets w h) = None \<Longrightarrow> \<not> registered w g h"
  unfolding registered_def by (auto dest!: registry_okD)

lemma socket_closed_unheard:
  "onClose (sockets w h) = None \<Longrightarrow> socket_closed h w = set_readyState h 3 w"
  by (simp add: socket_closed_def Let_def)

section \<open>Moves and registrations\<close>










lemma moves_ok_register [simp]: "moves_ok (games (snd (post_register w b u1 u2 u3 t))) = moves_ok (games w)"
  by simp











lemma users_grow_step: "step w w' \<Longrightarrow> set (users w) \<subseteq> set (users w')"
  by (drule db_next_step) (auto simp: db_next_def)

lemma users_grow: "step\<^sup>*\<^sup>* w w' \<Longrightarrow> set (users w) \<subseteq> set (users w')"
  by (induction rule: rtranclp_induct) (auto dest: users_grow_step)

lemma registerUser_duplicate:
  "uname \<in> username ` set us \<Longrightarrow> registerUser us uname u1 u2 u3 t = Inl ''User already exists''"
  by (auto simp: registerUser_def find_eq_None)

lemma post_register_duplicate:
  "reqBody ''username'' = Some (JStr s) \<Longrightarrow> trim s \<noteq> [] \<Longrightarrow>
   trim s \<in> username ` set (users w) \<Longrightarrow>
     post_register w reqBody u1 u2 u3 t = (Response 400 (ErrorBody ''User already exists''), w)"
proof -
  assume b: "reqBody ''username'' = Some (JStr s)" and ne: "trim s \<noteq> []"
    and dup: "trim s \<in> username ` set (users w)"
  from ne have "s \<noteq> []" by (auto simp: trim_def)
  with b ne registerUser_duplicate[OF dup] show ?thesis
    by (simp add: post_register_def Let_def)
qed

lemma post_register_created:
  "status_code (fst (post_register w reqBody u1 u2 u3 t)) = 201 \<Longrightarrow>
     (\<exists>s. reqBody ''username'' = Some (JStr s)) \<and> trim (the_str (reqBody ''username'')) \<noteq> [] \<and>
     trim (the_str (reqBody ''username'')) \<in> username ` set (users (snd (post_register w reqBody u1 u2 u3 t)))"
  by (cases "reqBody ''username''" rule: truthy.cases)
     (auto simp: post_register_def registerUser_def Let_def split: if_splits)

section \<open>Games keep their owner\<close>

lemma put_game_changes:
  "put_game w usr gameId reqBody now = (r, w') \<Longrightarrow>
     users w' = users w \<and> gameConnections w' = gameConnections w \<and> sockets w' = sockets w \<and>
     length (games w') = length (games w) \<and>
     (\<forall>j < length (games w).
        game_id (games w' ! j) = game_id (games w ! j) \<and>
        ownerId (games w' ! j) = ownerId (games w ! j) \<and>
        players (games w' ! j) = players (games w ! j) \<and>
        moves (games w' ! j) = moves (games w ! j) \<and>
        createdAt (games w' ! j) = createdAt (games w ! j) \<and>
        (findIndex (\<lambda>g. game_id g = gameId) (games w) \<noteq> Some j \<longrightarrow> games w' ! j = games w ! j) \<and>
        (ownerId (games w ! j) \<noteq> user_id usr \<longrightarrow> games w' ! j = games w ! j)) \<and>
     (\<forall>g. getGameById (games w) gameId = Some g \<and> ownerId g = user_id usr \<longrightarrow>
        getGameById (games w') gameId =
          Some (g\<lparr>game_name := (if truthy (reqBody ''name'') then the_val (reqBody ''name'')
                                 else game_name g),
                  status := (if truthy (reqBody ''status'') then the_val (reqBody ''status'')
                             else status g),
                  updatedAt := now\<rparr>) \<and>
        status_code r = 200)"
proof (cases "getGameById (games w) gameId")
  case None
  assume "put_game w usr gameId reqBody now = (r, w')"
  with None show ?thesis by (simp add: put_game_cases)
next
  case (Some g)
  assume pg: "put_game w usr gameId reqBody now = (r, w')"
  from getGameById_findIndex[OF Some] obtain i where
    i: "findIndex (\<lambda>g. game_id g = gameId) (games w) = Some i" "i < length (games w)"
       "games w ! i = g" "game_id g = gameId"
    by blast
  show ?thesis
  proof (cases "ownerId g = user_id usr")
    case False
    with pg Some show ?thesis by (simp add: put_game_cases)
  next
    case True
    let ?g' = "put_result g reqBody now"
    have w': "w' = w\<lparr>games := (games w)[i := ?g']\<rparr>" and r: "status_code r = 200"
      using pg Some True i by (auto simp: put_game_cases)
    have found: "getGameById (games w') gameId = Some ?g'"
      unfolding w' using i by (simp add: getGameById_update)
    have nth: "games w' ! j = (if j = i then ?g' else games w ! j)" if "j < length (games w)" for j
      unfolding w' using that by (simp add: nth_list_update)
    have frame: "users w' = users w" "gameConnections w' = gameConnections w"
      "sockets w' = sockets w" "length (games w') = length (games w)"
      unfolding w' by simp_all
    have each: "game_id (games w' ! j) = game_id (games w ! j) \<and>
        ownerId (games w' ! j) = ownerId (games w ! j) \<and>
        players (games w' ! j) = players (games w ! j) \<and>
        moves (games w' ! j) = moves (games w ! j) \<and>
        createdAt (games w' ! j) = createdAt (games w ! j) \<and>
        (findIndex (\<lambda>g. game_id g = gameId) (games w) \<noteq> Some j \<longrightarrow> games w' ! j = games w ! j) \<and>
        (ownerId (games w ! j) \<noteq> user_id usr \<longrightarrow> games w' ! j = games w ! j)"
      if "j < length (games w)" for j
      using nth[OF that] i True by (cases "j = i") simp_all
    have upd: "getGameById (games w') gameId =
          Some (g\<lparr>game_name := (if truthy (reqBody ''name'') then the_val (reqBody ''name'')
                                 else game_name g),
                  status := (if truthy (reqBody ''status'') then the_val (reqBody ''status'')
                             else status g),
                  updatedAt := now\<rparr>)"
      using found by (simp add: put_result_def)
    show ?thesis
      using frame each upd r Some by simp
  qed
qed

lemma owners_update:
  "i < length gs \<Longrightarrow> game_id g = game_id (gs ! i) \<Longrightarrow> ownerId g = ownerId (gs ! i) \<Longrightarrow>
     owners (gs[i := g]) \<subseteq> owners gs"
proof
  fix x assume i: "i < length gs" and same: "game_id g = game_id (gs ! i)" "ownerId g = ownerId (gs ! i)"
    and x: "x \<in> owners (gs[i := g])"
  then obtain g' where g': "g' \<in> set (gs[i := g])" "x = (game_id g', ownerId g')"
    by (auto simp: owners_def)
  from g'(1) have "g' = g \<or> g' \<in> set gs"
    using set_update_subset_insert[of gs i g] by auto
  then show "x \<in> owners gs"
  proof
    assume "g' = g"
    with g'(2) same have "x = (game_id (gs ! i), ownerId (gs ! i))" by simp
    with i show ?thesis by (auto simp: owners_def)
  next
    assume "g' \<in> set gs"
    with g'(2) show ?thesis by (auto simp: owners_def)
  qed
qed

lemma owners_splice1: "owners (splice1 i gs) \<subseteq> owners gs"
  using set_splice1[of i gs] by (auto simp: owners_def)

lemma owners_post_games:
  "owners (games (snd (post_games w usr b u t1 t2))) \<subseteq> insert (u, user_id usr) (owners (games w))"
  by (auto simp: post_games_def createGame_def Let_def owners_def)

lemma owners_put_game: "owners (games (snd (put_game w usr g b t))) \<subseteq> owners (games w)"
proof (cases "getGameById (games w) g")
  case None
  then show ?thesis by (simp add: put_game_cases)
next
  case (Some gm)
  from getGameById_findIndex[OF Some] obtain i where
    i: "findIndex (\<lambda>x. game_id x = g) (games w) = Some i" "i < length (games w)" "games w ! i = gm"
    by blast
  have "owners ((games w)[i := put_result gm b t]) \<subseteq> owners (games w)"
    using i by (intro owners_update) simp_all
  with Some i show ?thesis by (simp add: put_game_cases)
qed

lemma owners_delete_game: "owners (games (snd (delete_game w usr g))) \<subseteq> owners (games w)"
  by (simp add: delete_game_def deleteGame_def owners_splice1 split: option.splits)

lemma owners_post_players:
  "owners (games (snd (post_players w usr g b u t1 t2))) \<subseteq> owners (games w)"
proof (cases "findIndex (\<lambda>x. game_id x = g) (games w)")
  case None
  then show ?thesis
    by (auto simp: post_players_def addPlayerToGame_def Let_def split: option.splits)
next
  case (Some i)
  then have i: "i < length (games w)" by (auto dest: findIndex_SomeD)
  have "owners ((games w)[i := (games w ! i)\<lparr>players := ps, updatedAt := t\<rparr>]) \<subseteq> owners (games w)"
    for ps t
    using i by (intro owners_update) simp_all
  with Some show ?thesis
    by (auto simp: post_players_def addPlayerToGame_def Let_def split: option.splits)
qed

lemma owners_delete_player:
  "owners (games (snd (delete_player w usr g p t))) \<subseteq> owners (games w)"
proof (cases "findIndex (\<lambda>x. game_id x = g) (games w)")
  case None
  then show ?thesis
    by (auto simp: delete_player_def removePlayerFromGame_def Let_def split: option.splits)
next
  case (Some i)
  then have i: "i < length (games w)" by (auto dest: findIndex_SomeD)
  have "owners ((games w)[i := (games w ! i)\<lparr>players := ps, updatedAt := t\<rparr>]) \<subseteq> owners (games w)"
    for ps t
    using i by (intro owners_update) simp_all
  with Some show ?thesis
    by (auto simp: delete_player_def removePlayerFromGame_def Let_def split: option.splits)
qed

lemma owners_post_moves:
  "owners (games (snd (post_moves w usr g b u t1 t2))) \<subseteq> owners (games w)"
proof (cases "findIndex (\<lambda>x. game_id x = g) (games w)")
  case None
  then show ?thesis
    by (auto simp: post_moves_def addMoveToGame_def Let_def split: option.splits)
next
  case (Some i)
  then have i: "i < length (games w)" by (auto dest: findIndex_SomeD)
  have "owners ((games w)[i := (games w ! i)\<lparr>moves := ms, updatedAt := t\<rparr>]) \<subseteq> owners (games w)"
    for ms t
    using i by (intro owners_update) simp_all
  with Some show ?thesis
    by (auto simp: post_moves_def addMoveToGame_def Let_def split: option.splits)
qed

lemma owners_auth:
  "(\<And>usr. owners (games (snd (next usr))) \<subseteq> A \<union> owners (games w)) \<Longrightarrow>
     owners (games (snd (apiKeyAuth w header next))) \<subseteq> A \<union> owners (games w)"
  by (auto simp: apiKeyAuth_def split: option.splits)

lemma owners_step:
  "step w w' \<Longrightarrow> \<exists>A. owners (games w') \<subseteq> A \<union> owners (games w) \<and> (\<forall>x \<in> A. fst x \<notin> ids_of w)"
proof (induction rule: step.induct)
  case (s_register u3 w reqBody u1 u2 now)
  show ?case by (rule exI[of _ "{}"]) simp
next
  case (s_post_games u w header reqBody t1 t2)
  have "owners (games (snd (apiKeyAuth w header (\<lambda>usr. post_games w usr reqBody u t1 t2))))
      \<subseteq> {x. fst x = u} \<union> owners (games w)"
  proof (rule owners_auth)
    fix usr
    from owners_post_games[of w usr reqBody u t1 t2]
    show "owners (games (snd (post_games w usr reqBody u t1 t2))) \<subseteq> {x. fst x = u} \<union> owners (games w)"
      by auto
  qed
  with s_post_games show ?case
    by (intro exI[of _ "{x. fst x = u}"]) simp
next
  case (s_put_game w header gameId reqBody now)
  have "owners (games (snd (apiKeyAuth w header (\<lambda>usr. put_game w usr gameId reqBody now))))
      \<subseteq> {} \<union> owners (games w)"
    by (rule owners_auth) (simp add: owners_put_game)
  then show ?case by (intro exI[of _ "{}"]) simp
next
  case (s_delete_game w header gameId)
  have "owners (games (snd (apiKeyAuth w header (\<lambda>usr. delete_game w usr gameId))))
      \<subseteq> {} \<union> owners (games w)"
    by (rule owners_auth) (simp add: owners_delete_game)
  then show ?case by (intro exI[of _ "{}"]) simp
next
  case (s_post_players u w header gameId reqBody t1 t2)
  have "owners (games (snd (apiKeyAuth w header (\<lambda>usr. post_players w usr gameId reqBody u t1 t2))))
      \<subseteq> {} \<union> owners (games w)"
    by (rule owners_auth) (simp add: owners_post_players)
  then show ?case by (intro exI[of _ "{}"]) simp
next
  case (s_delete_player w header gameId pid now)
  have "owners (games (snd (apiKeyAuth w header (\<lambda>usr. delete_player w usr gameId pid now))))
      \<subseteq> {} \<union> owners (games w)"
    by (rule owners_auth) (simp add: owners_delete_player)
  then show ?case by (intro exI[of _ "{}"]) simp
next
  case (s_post_moves u w header gameId reqBody t1 t2)
  have "owners (games (snd (apiKeyAuth w header (\<lambda>usr. post_moves w usr gameId reqBody u t1 t2))))
      \<subseteq> {} \<union> owners (games w)"
    by (rule owners_auth) (simp add: owners_post_moves)
  then show ?case by (intro exI[of _ "{}"]) simp
next
  case (s_connection w h url)
  show ?case
    using db_same_on_connection[of w h url]
    by (intro exI[of _ "{}"]) (simp add: db_same_def)
next
  case (s_closing w h)
  show ?case by (intro exI[of _ "{}"]) simp
next
  case (s_closed w h)
  show ?case
    using db_same_socket_closed[of w h] by (intro exI[of _ "{}"]) (simp add: db_same_def)
qed

lemma owner_kept:
  assumes st: "step w w'" and g': "g' \<in> set (games w')"
    and old: "game_id g' \<in> game_id ` set (games w)"
  shows "\<exists>g \<in> set (games w). game_id g = game_id g' \<and> ownerId g = ownerId g'"
proof -
  from owners_step[OF st] obtain A where
    A: "owners (games w') \<subseteq> A \<union> owners (games w)" "\<forall>x \<in> A. fst x \<notin> ids_of w"
    by blast
  from g' have "(game_id g', ownerId g') \<in> owners (games w')"
    by (auto simp: owners_def)
  with A(1) have "(game_id g', ownerId g') \<in> A \<or> (game_id g', ownerId g') \<in> owners (games w)"
    by blast
  moreover from old have "game_id g' \<in> ids_of w"
    by (auto simp: ids_of_def)
  ultimately have "(game_id g', ownerId g') \<in> owners (games w)"
    using A(2) by fastforce
  then show ?thesis
    by (auto simp: owners_def)
qed

section \<open>The policy in the handlers\<close>

lemma policy_in_handlers:
  "getGameById (games w) gameId = Some g \<Longrightarrow>
     isOwnerOrPlayer g (ownerId g) \<and>
     (status_code (fst (post_moves w usr gameId reqBody u t1 t2)) = 403 \<longleftrightarrow>
        \<not> isOwnerOrPlayer g (user_id usr)) \<and>
     (k \<noteq> [] \<and> gameId \<noteq> [] \<and> getUserByApiKey (users w) k = Some usr \<longrightarrow>
        (isOwnerOrPlayer g (user_id usr) \<longrightarrow>
           registered (handshake h (Some k) (Some gameId) w) gameId h \<and>
           readyState (sockets (handshake h (Some k) (Some gameId) w) h) = 1 \<and>
           closeCode (sockets (handshake h (Some k) (Some gameId) w) h) = closeCode (sockets w h)) \<and>
        (\<not> isOwnerOrPlayer g (user_id usr) \<longrightarrow>
           closeCode (sockets (handshake h (Some k) (Some gameId) w) h) =
             Some (4003, ''Access denied: Not a player or owner of this game'') \<and>
           gameConnections (handshake h (Some k) (Some gameId) w) = gameConnections w))"
proof (intro conjI impI)
  assume g: "getGameById (games w) gameId = Some g"
  show "isOwnerOrPlayer g (ownerId g)"
    by (simp add: isOwnerOrPlayer_def isOwner_def)
  show "(status_code (fst (post_moves w usr gameId reqBody u t1 t2)) = 403) =
        (\<not> isOwnerOrPlayer g (user_id usr))"
    using g
    by (simp add: post_moves_def Let_def isOwnerOrPlayer_test split: option.splits prod.splits)
next
  assume g: "getGameById (games w) gameId = Some g"
    and k: "k \<noteq> [] \<and> gameId \<noteq> [] \<and> getUserByApiKey (users w) k = Some usr"
    and a: "isOwnerOrPlayer g (user_id usr)"
  let ?w = "handshake h (Some k) (Some gameId) w"
  have eq: "?w = admit h usr g gameId (set_readyState h 1 w)"
    using g k a by (simp add: handshake_cases Let_def)
  show "registered ?w gameId h"
    unfolding eq by (simp add: registered_def conns_admit)
  show "readyState (sockets ?w h) = 1"
    unfolding eq by (simp add: sockets_admit)
  show "closeCode (sockets ?w h) = closeCode (sockets w h)"
    unfolding eq by (simp add: sockets_admit)
next
  assume g: "getGameById (games w) gameId = Some g"
    and k: "k \<noteq> [] \<and> gameId \<noteq> [] \<and> getUserByApiKey (users w) k = Some usr"
    and a: "\<not> isOwnerOrPlayer g (user_id usr)"
  let ?w = "handshake h (Some k) (Some gameId) w"
  have eq: "?w = ws_close h 4003 ''Access denied: Not a player or owner of this game'' (set_readyState h 1 w)"
    using g k a by (simp add: handshake_cases Let_def)
  show "closeCode (sockets ?w h) = Some (4003, ''Access denied: Not a player or owner of this game'')"
    unfolding eq by simp
  show "gameConnections ?w = gameConnections w"
    unfolding eq by simp
qed

section \<open>The scenario, step by step\<close>

lemma ex1: "ex1 = init\<lparr>users := [alice]\<rparr>"
  by (simp add: ex1_def post_register_def registerUser_def init_def trim_def isWhiteSpace_def Let_def alice_def)

lemma ex2: "ex2 = init\<lparr>users := [alice, bob]\<rparr>"
  by (simp add: ex2_def ex1 post_register_def registerUser_def init_def trim_def isWhiteSpace_def Let_def alice_def bob_def)

lemma ex3: "ex3 = init\<lparr>users := [alice, bob], games := [chess\<lparr>players := [], updatedAt := ''t3''\<rparr>]\<rparr>"
  by (simp add: ex3_def ex2 apiKeyAuth_def getUserByApiKey_def post_games_def createGame_def
      init_def trim_def isWhiteSpace_def Let_def alice_def bob_def chess_def)

lemma ex4: "ex4 = init\<lparr>users := [alice, bob], games := [chess]\<rparr>"
  by (simp add: ex4_def ex3 apiKeyAuth_def getUserByApiKey_def post_players_def getGameById_def
      addPlayerToGame_def broadcastToGame_def
      init_def trim_def isWhiteSpace_def Let_def alice_def bob_def chess_def pippo_def)

lemma ex5:
  "ex5 = \<lparr>users = [alice, bob], games = [chess],
          gameConnections = [''g1'' \<mapsto> [conn 0 alice]],
          sockets = (\<lambda>h. new_socket)(0 := greeted ''g1'' (JStr ''Chess'') ''alice'')\<rparr>"
  by (simp add: ex5_def ex4 on_connection_def searchParams_get_def handshake_def getUserByApiKey_def getGameById_def admit_def
      ws_send_def ws_on_close_def set_readyState_def new_socket_def greeted_def conn_def
      init_def Let_def alice_def bob_def chess_def pippo_def)

lemma ex6:
  "ex6 = \<lparr>users = [alice, bob], games = [chess],
          gameConnections = [''g1'' \<mapsto> [conn 0 alice, conn 1 alice]],
          sockets = (\<lambda>h. new_socket)(0 := greeted ''g1'' (JStr ''Chess'') ''alice'',
                                      1 := greeted ''g1'' (JStr ''Chess'') ''alice'')\<rparr>"
  by (simp add: ex6_def ex5 on_connection_def searchParams_get_def handshake_def getUserByApiKey_def getGameById_def admit_def
      ws_send_def ws_on_close_def set_readyState_def new_socket_def greeted_def conn_def
      Let_def alice_def bob_def chess_def pippo_def)

lemma ex7:
  "ex7 = \<lparr>users = [alice, bob], games = [chess],
          gameConnections = [''g1'' \<mapsto> [conn 0 alice, conn 1 alice]],
          sockets = (\<lambda>h. new_socket)(0 := greeted ''g1'' (JStr ''Chess'') ''alice'',
                                      1 := (greeted ''g1'' (JStr ''Chess'') ''alice'')\<lparr>readyState := 2\<rparr>)\<rparr>"
  by (simp add: ex7_def ex6 set_readyState_def)

lemma ex8:
  "ex8 = \<lparr>users = [alice, bob], games = [chess, go],
          gameConnections = [''g1'' \<mapsto> [conn 0 alice, conn 1 alice]],
          sockets = (\<lambda>h. new_socket)(0 := greeted ''g1'' (JStr ''Chess'') ''alice'',
                                      1 := (greeted ''g1'' (JStr ''Chess'') ''alice'')\<lparr>readyState := 2\<rparr>)\<rparr>"
  by (simp add: ex8_def ex7 apiKeyAuth_def getUserByApiKey_def post_games_def createGame_def
      trim_def isWhiteSpace_def Let_def alice_def bob_def go_def)

lemma ex9:
  "ex9 = \<lparr>users = [alice, bob], games = [chess, go],
          gameConnections = [''g1'' \<mapsto> [conn 0 alice, conn 1 alice], ''g2'' \<mapsto> [conn 2 bob]],
          sockets = (\<lambda>h. new_socket)(0 := greeted ''g1'' (JStr ''Chess'') ''alice'',
                                      1 := (greeted ''g1'' (JStr ''Chess'') ''alice'')\<lparr>readyState := 2\<rparr>,
                                      2 := greeted ''g2'' (JStr ''Go'') ''bob'')\<rparr>"
  by (simp add: ex9_def ex8 on_connection_def searchParams_get_def handshake_def getUserByApiKey_def getGameById_def admit_def
      ws_send_def ws_on_close_def set_readyState_def new_socket_def greeted_def conn_def
      Let_def alice_def bob_def chess_def go_def pippo_def)

lemma ex10:
  "ex10 = \<lparr>users = [alice, bob], games = [chess, go],
          gameConnections = [''g1'' \<mapsto> [conn 0 alice, conn 1 alice], ''g2'' \<mapsto> [conn 2 bob],
                             ''g1'' \<mapsto> [conn 0 alice, conn 1 alice, conn 3 alice]],
          sockets = (\<lambda>h. new_socket)(0 := greeted ''g1'' (JStr ''Chess'') ''alice'',
                                      1 := (greeted ''g1'' (JStr ''Chess'') ''alice'')\<lparr>readyState := 2\<rparr>,
                                      2 := greeted ''g2'' (JStr ''Go'') ''bob'',
                                      3 := greeted ''g1'' (JStr ''Chess'') ''alice'')\<rparr>"
  by (simp add: ex10_def ex9 on_connection_def searchParams_get_def handshake_def getUserByApiKey_def getGameById_def admit_def
      ws_send_def ws_on_close_def set_readyState_def new_socket_def greeted_def conn_def
      Let_def alice_def bob_def chess_def go_def pippo_def)


lemma games_by_hand: "getGameById (games by_hand) ''g1'' = Some shared_game"
  by (simp add: by_hand_def init_def getGameById_def shared_game_def chess_def)

lemma games_ex4: "getGameById (games ex4) ''g1'' = Some chess"
  by (simp add: ex4 init_def getGameById_def chess_def)

lemma key_ex4: "getUserByApiKey (users ex4) ''kakb'' = Some alice"
  by (simp add: ex4 init_def getUserByApiKey_def alice_def)

lemma post_moves_pair:
  "post_moves w usr gameId reqBody u t1 t2 =
     (fst (post_moves w usr gameId reqBody u t1 t2), snd (post_moves w usr gameId reqBody u t1 t2))"
  by simp

lemma chess_roster:
  "isOwnerOrPlayer chess (user_id alice)" "\<not> isOwnerOrPlayer chess (user_id bob)"
  "find (\<lambda>p. player_id p = ''p1'') (players chess) = Some pippo"
  "''zz'' \<notin> player_id ` set (players chess)" "moves chess = []"
  by (simp_all add: isOwnerOrPlayer_def isOwner_def chess_def pippo_def alice_def bob_def)

lemma games_ex4_none: "getGameById (games ex4) ''g9'' = None"
  by (simp add: ex4 init_def getGameById_def chess_def)

lemma put_game_pair:
  "put_game w usr gameId reqBody now =
     (fst (put_game w usr gameId reqBody now), snd (put_game w usr gameId reqBody now))"
  by simp

lemma games_ex10: "games ex10 = [chess, go]" "getGameById (games ex10) ''g1'' = Some chess"
  by (simp_all add: ex10 getGameById_def chess_def)

lemma reach_ex1: "reach ex1"
proof (rule reach_step[OF reach_init])
  show "step init ex1"
    unfolding ex1_def by (rule s_register) (simp add: ids_of_def init_def)
qed

lemma reach_ex2: "reach ex2"
proof (rule reach_step[OF reach_ex1])
  show "step ex1 ex2"
    unfolding ex2_def by (rule s_register) (simp add: ids_of_def ex1 init_def alice_def)
qed

lemma reach_ex3: "reach ex3"
proof (rule reach_step[OF reach_ex2])
  show "step ex2 ex3"
    unfolding ex3_def by (rule s_post_games) (simp add: ids_of_def ex2 init_def alice_def bob_def)
qed

lemma reach_ex4: "reach ex4"
proof (rule reach_step[OF reach_ex3])
  show "step ex3 ex4"
    unfolding ex4_def
    by (rule s_post_players) (simp add: ids_of_def ex3 init_def alice_def bob_def chess_def)
qed

lemma reach_ex5: "reach ex5"
proof (rule reach_step[OF reach_ex4])
  show "step ex4 ex5"
    unfolding ex5_def by (rule s_connection) (simp add: ex4 init_def new_socket_def)
qed

lemma reach_ex6: "reach ex6"
proof (rule reach_step[OF reach_ex5])
  show "step ex5 ex6"
    unfolding ex6_def by (rule s_connection) (simp add: ex5 new_socket_def)
qed

lemma reach_ex7: "reach ex7"
proof (rule reach_step[OF reach_ex6])
  show "step ex6 ex7"
    unfolding ex7_def by (rule s_closing) (simp add: ex6 greeted_def)
qed

lemma reach_ex8: "reach ex8"
proof (rule reach_step[OF reach_ex7])
  show "step ex7 ex8"
    unfolding ex8_def
    by (rule s_post_games) (simp add: ids_of_def ex7 alice_def bob_def chess_def pippo_def)
qed

lemma reach_ex9: "reach ex9"
proof (rule reach_step[OF reach_ex8])
  show "step ex8 ex9"
    unfolding ex9_def by (rule s_connection) (simp add: ex8 new_socket_def)
qed

lemma reach_ex10: "reach ex10"
proof (rule reach_step[OF reach_ex9])
  show "step ex9 ex10"
    unfolding ex10_def by (rule s_connection) (simp add: ex9 new_socket_def)
qed

lemma ex10_registry:
  "registered ex10 ''g1'' 0" "registered ex10 ''g1'' (Suc 0)" "registered ex10 ''g1'' 3"
  "\<not> registered ex10 ''g1'' 2" "registered ex10 ''g2'' 2"
  by (simp_all add: registered_def conns_def ex10 conn_def)

lemma ex10_sockets:
  "sockets ex10 0 = greeted ''g1'' (JStr ''Chess'') ''alice''"
  "sockets ex10 (Suc 0) = (greeted ''g1'' (JStr ''Chess'') ''alice'')\<lparr>readyState := 2\<rparr>"
  "sockets ex10 2 = greeted ''g2'' (JStr ''Go'') ''bob''"
  "sockets ex10 3 = greeted ''g1'' (JStr ''Chess'') ''alice''"
  by (simp_all add: ex10)


lemma ex10_fresh: "readyState (sockets ex10 4) = 0"
  by (simp add: ex10 new_socket_def)

lemma ex10_keys:
  "getUserByApiKey (users ex10) ''kakb'' = Some alice"
  "getUserByApiKey (users ex10) ''kckd'' = Some bob"
  "getUserByApiKey (users ex10) ''none'' = None"
  "getGameById (games ex10) ''g9'' = None"
  by (simp_all add: ex10 getUserByApiKey_def getGameById_def alice_def bob_def chess_def go_def)





lemma step_ex1_ex2: "step ex1 ex2"
  unfolding ex2_def by (rule s_register) (simp add: ids_of_def ex1 init_def alice_def)

lemma users_ex10: "users ex10 = [alice, bob]"
  by (simp add: ex10)

lemma step_ex7_ex8: "step ex7 ex8"
  unfolding ex8_def
  by (rule s_post_games) (simp add: ids_of_def ex7 alice_def bob_def chess_def pippo_def)

section \<open>What a handshake does\<close>

text \<open>
  When the URL constructor throws, the handler does nothing to the socket or the
  registry.
\<close>

lemma on_connection_threw:
  "on_connection h (Inl message) w = (Threw message, set_readyState h 1 w)"
  by (simp add: on_connection_def)

lemma on_connection_returned:
  "on_connection h (Inr params) w =
     (Returned,
      handshake h (searchParams_get params ''apiKey'') (searchParams_get params ''gameId'') w)"
  by (simp add: on_connection_def)

text \<open>
  When the constructor returns, in every reachable state, the handshake on a socket not
  used before closes the socket with 4000 when \<open>apiKey\<close> or \<open>gameId\<close> is absent or empty;
  otherwise with 4001 when no user has the key; otherwise with 4002 when no game has the
  identifier; otherwise with 4003 when the user is neither the owner nor a player of the
  game; and otherwise registers the socket without closing it. Whenever the handshake
  closes the socket, the socket is CLOSING, the registry is as it was and no frame was
  sent to any socket; and in every state reached later the socket is registered for no
  game, and its close runs no listener, so that it sends nothing to any socket.
\<close>

lemma handshake_closes:
  "reach w \<Longrightarrow> readyState (sockets w h) = 0 \<Longrightarrow>
     (a = None \<or> a = Some [] \<or> b = None \<or> b = Some [] \<longrightarrow>
        closeCode (sockets (handshake h a b w) h) =
          Some (4000, ''Missing apiKey or gameId parameter'')) \<and>
     (\<forall>k gameId. a = Some k \<and> k \<noteq> [] \<and> b = Some gameId \<and> gameId \<noteq> [] \<longrightarrow>
        (getUserByApiKey (users w) k = None \<longrightarrow>
           closeCode (sockets (handshake h a b w) h) = Some (4001, ''Invalid API key'')) \<and>
        (\<forall>usr. getUserByApiKey (users w) k = Some usr \<longrightarrow>
           (getGameById (games w) gameId = None \<longrightarrow>
              closeCode (sockets (handshake h a b w) h) = Some (4002, ''Game not found'')) \<and>
           (\<forall>gm. getGameById (games w) gameId = Some gm \<longrightarrow>
              (\<not> isOwnerOrPlayer gm (user_id usr) \<longrightarrow>
                 closeCode (sockets (handshake h a b w) h) =
                   Some (4003, ''Access denied: Not a player or owner of this game'')) \<and>
              (isOwnerOrPlayer gm (user_id usr) \<longrightarrow>
                 closeCode (sockets (handshake h a b w) h) = None \<and>
                 registered (handshake h a b w) gameId h)))) \<and>
     (closeCode (sockets (handshake h a b w) h) \<noteq> None \<longrightarrow>
        readyState (sockets (handshake h a b w) h) = 2 \<and>
        gameConnections (handshake h a b w) = gameConnections w \<and>
        (\<forall>k. sent (sockets (handshake h a b w) k) = sent (sockets w k)) \<and>
        (\<forall>w''. step\<^sup>*\<^sup>* (handshake h a b w) w'' \<longrightarrow>
           (\<forall>g. \<not> registered w'' g h) \<and>
           socket_closed h w'' = set_readyState h 3 w'' \<and>
           (\<forall>k. sent (sockets (socket_closed h w'') k) = sent (sockets w'' k))))"
proof -
  assume rw: "reach w" and fresh: "readyState (sockets w h) = 0"
  let ?w' = "handshake h a b w"
  have new: "sockets w h = new_socket" by (rule reach_pristine[OF rw fresh])
  then have cc: "closeCode (sockets w h) = None" and oc: "onClose (sockets w h) = None"
    by (simp_all add: new_socket_def)
  have rw': "reach ?w'" by (rule reach_step[OF rw step_handshake[OF fresh]])
  have codes: "(a = None \<or> a = Some [] \<or> b = None \<or> b = Some [] \<longrightarrow>
        closeCode (sockets ?w' h) = Some (4000, ''Missing apiKey or gameId parameter'')) \<and>
     (\<forall>k gameId. a = Some k \<and> k \<noteq> [] \<and> b = Some gameId \<and> gameId \<noteq> [] \<longrightarrow>
        (getUserByApiKey (users w) k = None \<longrightarrow>
           closeCode (sockets ?w' h) = Some (4001, ''Invalid API key'')) \<and>
        (\<forall>usr. getUserByApiKey (users w) k = Some usr \<longrightarrow>
           (getGameById (games w) gameId = None \<longrightarrow>
              closeCode (sockets ?w' h) = Some (4002, ''Game not found'')) \<and>
           (\<forall>gm. getGameById (games w) gameId = Some gm \<longrightarrow>
              (\<not> isOwnerOrPlayer gm (user_id usr) \<longrightarrow>
                 closeCode (sockets ?w' h) =
                   Some (4003, ''Access denied: Not a player or owner of this game'')) \<and>
              (isOwnerOrPlayer gm (user_id usr) \<longrightarrow>
                 closeCode (sockets ?w' h) = None \<and> registered ?w' gameId h))))"
    using cc
    by (auto simp: handshake_cases Let_def sockets_admit registered_def conns_admit)
  have rejected: "readyState (sockets ?w' h) = 2 \<and> gameConnections ?w' = gameConnections w \<and>
      (\<forall>k. sent (sockets ?w' k) = sent (sockets w k)) \<and> onClose (sockets ?w' h) = None"
    if "closeCode (sockets ?w' h) \<noteq> None"
    using that cc oc
    by (auto simp: handshake_cases Let_def sockets_admit split: option.splits if_splits)
  have later: "(\<forall>g. \<not> registered w'' g h) \<and> socket_closed h w'' = set_readyState h 3 w'' \<and>
      (\<forall>k. sent (sockets (socket_closed h w'') k) = sent (sockets w'' k))"
    if cl: "closeCode (sockets ?w' h) \<noteq> None" and steps: "step\<^sup>*\<^sup>* ?w' w''" for w''
  proof -
    from rejected[OF cl] have "readyState (sockets ?w' h) \<noteq> 0 \<and> onClose (sockets ?w' h) = None"
      by simp
    from unheard_steps[OF steps this] have un: "onClose (sockets w'' h) = None"
      by simp
    have "registry_ok w''"
      by (rule reach_registry_ok[OF reach_steps[OF rw' steps]])
    from unregistered_unheard[OF this un] socket_closed_unheard[OF un] show ?thesis
      by simp
  qed
  from codes rejected later show ?thesis
    by blast
qed

section \<open>What POST /games/:gameId/moves answers\<close>

text \<open>
  The answers by the first test that fails: 404 when no game has the identifier; 403 when
  the requester is neither the owner nor a player of the game; 400 when \<open>playerId\<close> is
  falsy or not of type string; 400 when \<open>data\<close> is falsy or not of type object; 404 when
  no player of the game has the identifier \<open>playerId\<close>; and otherwise 201 with the move
  created, appended to the moves of the game and broadcast to the game. Every answer but
  201 leaves the state as it was.
\<close>

lemma post_moves_cases:
  "post_moves w usr gameId reqBody u t1 t2 = (r, w') \<Longrightarrow>
   (getGameById (games w) gameId = None \<longrightarrow>
      r = Response 404 (ErrorBody ''Game not found'') \<and> w' = w) \<and>
   (\<forall>g. getGameById (games w) gameId = Some g \<longrightarrow>
      (\<not> isOwnerOrPlayer g (user_id usr) \<longrightarrow>
         r = Response 403 (ErrorBody ''Access denied: Only players and the game owner can post moves'') \<and>
         w' = w) \<and>
      (isOwnerOrPlayer g (user_id usr) \<longrightarrow>
         (\<not> truthy (reqBody ''playerId'') \<or> typeof (reqBody ''playerId'') \<noteq> ''string'' \<longrightarrow>
            r = Response 400 (ErrorBody ''Invalid playerId'') \<and> w' = w) \<and>
         (truthy (reqBody ''playerId'') \<and> typeof (reqBody ''playerId'') = ''string'' \<longrightarrow>
            (\<not> truthy (reqBody ''data'') \<or> typeof (reqBody ''data'') \<noteq> ''object'' \<longrightarrow>
               r = Response 400 (ErrorBody ''Invalid move data (must be JSON object)'') \<and> w' = w) \<and>
            (truthy (reqBody ''data'') \<and> typeof (reqBody ''data'') = ''object'' \<longrightarrow>
               (the_str (reqBody ''playerId'') \<notin> player_id ` set (players g) \<longrightarrow>
                  r = Response 404 (ErrorBody ''Player not found in this game'') \<and> w' = w) \<and>
               (\<forall>plr. find (\<lambda>p. player_id p = the_str (reqBody ''playerId'')) (players g) = Some plr \<longrightarrow>
                  r = Response 201 (MoveBody ''Move added successfully''
                        (Some \<lparr>move_id = u, playerId = the_str (reqBody ''playerId''),
                               data = the_val (reqBody ''data''), timestamp = t1\<rparr>)) \<and>
                  w' = broadcastToGame gameId
                         (MoveEvent gameId
                            (Some \<lparr>move_id = u, playerId = the_str (reqBody ''playerId''),
                                   data = the_val (reqBody ''data''), timestamp = t1\<rparr>)
                            (player_name plr))
                         (w\<lparr>games := snd (addMoveToGame (games w) gameId
                                (the_str (reqBody ''playerId'')) (the_val (reqBody ''data'')) u t1 t2)\<rparr>) \<and>
                  getGameMoves (games w') gameId =
                    moves g @ [\<lparr>move_id = u, playerId = the_str (reqBody ''playerId''),
                                data = the_val (reqBody ''data''), timestamp = t1\<rparr>])))))"
proof (cases "getGameById (games w) gameId")
  case None
  assume "post_moves w usr gameId reqBody u t1 t2 = (r, w')"
  with None show ?thesis by (simp add: post_moves_def)
next
  case (Some g)
  assume pm: "post_moves w usr gameId reqBody u t1 t2 = (r, w')"
  let ?pid = "reqBody ''playerId''" and ?dat = "reqBody ''data''"
  let ?mv = "\<lparr>move_id = u, playerId = the_str ?pid, data = the_val ?dat, timestamp = t1\<rparr>"
  have add: "fst (addMoveToGame (games w) gameId (the_str ?pid) (the_val ?dat) u t1 t2) = Some ?mv"
    using addMoveToGame_found[OF Some, of "the_str ?pid" "the_val ?dat" u t1 t2] by auto
  have mvs: "getGameMoves (snd (addMoveToGame (games w) gameId (the_str ?pid) (the_val ?dat) u t1 t2)) gameId
        = moves g @ [?mv]"
    by (rule getGameMoves_addMove[OF Some])
  have none: "find (\<lambda>p. player_id p = the_str ?pid) (players g) = None
        \<longleftrightarrow> the_str ?pid \<notin> player_id ` set (players g)"
    by (force simp: find_eq_None)
  show ?thesis
    using pm Some add mvs none
    by (auto simp: post_moves_def Let_def isOwnerOrPlayer_test split: option.splits prod.splits if_splits)
qed

text \<open>
  What the broadcast of a 201 does, in a reachable state: exactly one \<open>move\<close> event, with
  the move and the name of its player, to every socket registered for the game and OPEN,
  and nothing to any other socket.
\<close>

lemma post_moves_sent:
  assumes rw: "reach w" and g: "getGameById (games w) gameId = Some g"
    and auth: "isOwnerOrPlayer g (user_id usr)"
    and pid: "truthy (reqBody ''playerId'')" "typeof (reqBody ''playerId'') = ''string''"
    and dat: "truthy (reqBody ''data'')" "typeof (reqBody ''data'') = ''object''"
    and plr: "find (\<lambda>p. player_id p = the_str (reqBody ''playerId'')) (players g) = Some plr"
  shows "fst (post_moves w usr gameId reqBody u t1 t2) =
           Response 201 (MoveBody ''Move added successfully''
             (Some \<lparr>move_id = u, playerId = the_str (reqBody ''playerId''),
                    data = the_val (reqBody ''data''), timestamp = t1\<rparr>))"
    and "getGameMoves (games (snd (post_moves w usr gameId reqBody u t1 t2))) gameId =
           moves g @ [\<lparr>move_id = u, playerId = the_str (reqBody ''playerId''),
                       data = the_val (reqBody ''data''), timestamp = t1\<rparr>]"
    and "gameConnections (snd (post_moves w usr gameId reqBody u t1 t2)) = gameConnections w"
    and "sent (sockets (snd (post_moves w usr gameId reqBody u t1 t2)) h) =
           sent (sockets w h) @
           (if registered w gameId h \<and> readyState (sockets w h) = 1
            then [MoveEvent gameId
                    (Some \<lparr>move_id = u, playerId = the_str (reqBody ''playerId''),
                           data = the_val (reqBody ''data''), timestamp = t1\<rparr>)
                    (player_name plr)]
            else [])"
proof -
  let ?mv = "\<lparr>move_id = u, playerId = the_str (reqBody ''playerId''),
              data = the_val (reqBody ''data''), timestamp = t1\<rparr>"
  let ?gs = "snd (addMoveToGame (games w) gameId (the_str (reqBody ''playerId''))
                (the_val (reqBody ''data'')) u t1 t2)"
  let ?r = "fst (post_moves w usr gameId reqBody u t1 t2)"
  let ?w' = "snd (post_moves w usr gameId reqBody u t1 t2)"
  have pp: "post_moves w usr gameId reqBody u t1 t2 = (?r, ?w')"
    by simp
  from post_moves_cases[OF pp] g auth pid dat plr
  have r: "?r = Response 201 (MoveBody ''Move added successfully'' (Some ?mv))"
    and w': "?w' = broadcastToGame gameId (MoveEvent gameId (Some ?mv) (player_name plr))
                     (w\<lparr>games := ?gs\<rparr>)"
    and mvs: "getGameMoves (games ?w') gameId = moves g @ [?mv]"
    by blast+
  have reg: "registry_ok w" by (rule reach_registry_ok[OF rw])
  have reg1: "registry_ok (w\<lparr>games := ?gs\<rparr>)"
    by (rule registry_ok_rt_same[OF reg]) simp
  have same: "registered (w\<lparr>games := ?gs\<rparr>) gameId h = registered w gameId h"
    by (simp add: registered_def conns_def)
  show "?r = Response 201 (MoveBody ''Move added successfully'' (Some ?mv))"
    by (rule r)
  show "getGameMoves (games ?w') gameId = moves g @ [?mv]"
    by (rule mvs)
  show "gameConnections ?w' = gameConnections w"
    by (subst w') simp
  show "sent (sockets ?w' h) =
      sent (sockets w h) @
      (if registered w gameId h \<and> readyState (sockets w h) = 1
       then [MoveEvent gameId (Some ?mv) (player_name plr)] else [])"
    by (subst w') (simp add: broadcast_sent_ok[OF reg1] same)
qed

section \<open>The claims\<close>

subsection \<open>C1: the broadcast after a player is added\<close>

text \<open>
  Claim C1. In every reachable state, a \<open>POST /games/:gameId/players\<close> that answers
  201 answers with the new player (the identifier drawn, the trimmed name, the time of
  joining), leaves the registry and the state of every socket as they were, and sends
  exactly one \<open>player-joined\<close> event carrying that player to every socket that is
  registered for the game and OPEN, and nothing to any other socket; in particular
  nothing to a socket registered for a different game.
\<close>

theorem player_joined_broadcast:
  "reach w \<Longrightarrow> post_players w usr gameId reqBody u t1 t2 = (r, w') \<Longrightarrow> status_code r = 201 \<Longrightarrow>
     r = Response 201 (PlayerBody ''Player added successfully''
           (Some \<lparr>player_id = u, player_name = trim (the_str (reqBody ''name'')), joinedAt = t1\<rparr>)) \<and>
     gameConnections w' = gameConnections w \<and>
     (\<forall>h. readyState (sockets w' h) = readyState (sockets w h)) \<and>
     (\<forall>h. sent (sockets w' h) =
            sent (sockets w h) @
            (if registered w gameId h \<and> readyState (sockets w h) = 1
             then [PlayerJoined gameId
                     (Some \<lparr>player_id = u, player_name = trim (the_str (reqBody ''name'')),
                            joinedAt = t1\<rparr>)]
             else [])) \<and>
     (\<forall>g h. registered w g h \<and> g \<noteq> gameId \<longrightarrow> sent (sockets w' h) = sent (sockets w h))"
proof -
  assume rw: "reach w" and pp: "post_players w usr gameId reqBody u t1 t2 = (r, w')"
    and ok: "status_code r = 201"
  let ?p = "\<lparr>player_id = u, player_name = trim (the_str (reqBody ''name'')), joinedAt = t1\<rparr>"
  let ?gs = "snd (addPlayerToGame (games w) gameId (trim (the_str (reqBody ''name''))) u t1 t2)"
  have reg: "registry_ok w" by (rule reach_registry_ok[OF rw])
  from pp ok obtain g where g: "getGameById (games w) gameId = Some g"
    by (auto simp: post_players_def split: option.splits)
  have r: "r = Response 201 (PlayerBody ''Player added successfully'' (Some ?p))"
    and w': "w' = broadcastToGame gameId (PlayerJoined gameId (Some ?p)) (w\<lparr>games := ?gs\<rparr>)"
    using pp ok g addPlayerToGame_found[OF g, of "trim (the_str (reqBody ''name''))" u t1 t2]
    by (auto simp: post_players_def Let_def split: if_splits prod.splits)
  have reg1: "registry_ok (w\<lparr>games := ?gs\<rparr>)"
    by (rule registry_ok_rt_same[OF reg]) simp
  have same: "registered (w\<lparr>games := ?gs\<rparr>) gameId h = registered w gameId h" for h
    by (simp add: registered_def conns_def)
  have snt: "sent (sockets w' h) = sent (sockets w h) @
      (if registered w gameId h \<and> readyState (sockets w h) = 1
       then [PlayerJoined gameId (Some ?p)] else [])" for h
    unfolding w' by (simp add: broadcast_sent_ok[OF reg1] same)
  have other: "sent (sockets w' h) = sent (sockets w h)" if "registered w g' h" "g' \<noteq> gameId" for g' h
    using snt[of h] registered_exclusive[OF reg that(1), of gameId] that(2) by auto
  have frame: "gameConnections w' = gameConnections w"
    "\<forall>h. readyState (sockets w' h) = readyState (sockets w h)"
    by (simp_all add: w')
  from r frame snt other show ?thesis
    by blast
qed

text \<open>
  Alice adds pluto to Chess: her two OPEN sockets on Chess receive the event, her CLOSING
  socket and Bob's socket on Go receive nothing.
\<close>

theorem player_joined_broadcast_witness:
  "reach ex10 \<and>
   status_code (fst (post_players ex10 alice ''g1'' [''name'' \<mapsto> JStr '' pluto ''] ''p2'' ''t8'' ''t9'')) = 201 \<and>
   sent (sockets (snd (post_players ex10 alice ''g1'' [''name'' \<mapsto> JStr '' pluto ''] ''p2'' ''t8'' ''t9'')) 0) =
     [Connected (JStr ''Chess'') ''g1'' ''alice'',
      PlayerJoined ''g1'' (Some \<lparr>player_id = ''p2'', player_name = ''pluto'', joinedAt = ''t8''\<rparr>)] \<and>
   sent (sockets (snd (post_players ex10 alice ''g1'' [''name'' \<mapsto> JStr '' pluto ''] ''p2'' ''t8'' ''t9'')) 3) =
     [Connected (JStr ''Chess'') ''g1'' ''alice'',
      PlayerJoined ''g1'' (Some \<lparr>player_id = ''p2'', player_name = ''pluto'', joinedAt = ''t8''\<rparr>)] \<and>
   sent (sockets (snd (post_players ex10 alice ''g1'' [''name'' \<mapsto> JStr '' pluto ''] ''p2'' ''t8'' ''t9'')) 1) =
     [Connected (JStr ''Chess'') ''g1'' ''alice''] \<and>
   sent (sockets (snd (post_players ex10 alice ''g1'' [''name'' \<mapsto> JStr '' pluto ''] ''p2'' ''t8'' ''t9'')) 2) =
     [Connected (JStr ''Go'') ''g2'' ''bob'']"
proof -
  let ?b = "[''name'' \<mapsto> JStr '' pluto '']"
  let ?w = "snd (post_players ex10 alice ''g1'' ?b ''p2'' ''t8'' ''t9'')"
  have st: "status_code (fst (post_players ex10 alice ''g1'' ?b ''p2'' ''t8'' ''t9'')) = 201"
    by (rule post_players_created[OF games_ex10(2)])
       (simp_all add: chess_def alice_def trim_def isWhiteSpace_def)
  have nm: "trim (the_str (?b ''name'')) = ''pluto''"
    by (simp add: trim_def isWhiteSpace_def)
  note t = player_joined_broadcast[OF reach_ex10 post_players_pair st, unfolded nm]
  from t have snt: "sent (sockets ?w h) =
      sent (sockets ex10 h) @
      (if registered ex10 ''g1'' h \<and> readyState (sockets ex10 h) = 1
       then [PlayerJoined ''g1'' (Some \<lparr>player_id = ''p2'', player_name = ''pluto'', joinedAt = ''t8''\<rparr>)]
       else [])" for h
    by blast
  show ?thesis
    using reach_ex10 st snt[of 0] snt[of 1] snt[of 2] snt[of 3]
    by (simp add: ex10_registry ex10_sockets greeted_def)
qed

subsection \<open>C2: a socket closes\<close>




subsection \<open>C3: handshakes that fail\<close>

text \<open>
  Claim C3 says that every handshake in which a required parameter is missing closes the
  socket with code 4000. The handler reads the parameters from the URL it builds of the
  request target, and when the constructor throws, as for the target \<open>//?gameId=g1\<close>, it
  never reaches the test: in the scenario, a handshake on the fresh socket 4 without
  \<open>apiKey\<close> is closed with 4000 when the URL is built, and when the constructor throws
  the handler ends by the exception, the socket stays OPEN with no close code, and the
  registry is as it was.
\<close>

theorem handshake_invalid_url:
  "reach ex10 \<and> readyState (sockets ex10 4) = 0 \<and>
   searchParams_get [(''gameId'', ''g1'')] ''apiKey'' = None \<and>
   fst (on_connection 4 (Inr [(''gameId'', ''g1'')]) ex10) = Returned \<and>
   closeCode (sockets (snd (on_connection 4 (Inr [(''gameId'', ''g1'')]) ex10)) 4) =
     Some (4000, ''Missing apiKey or gameId parameter'') \<and>
   fst (on_connection 4 (Inl ''Invalid URL'') ex10) = Threw ''Invalid URL'' \<and>
   closeCode (sockets (snd (on_connection 4 (Inl ''Invalid URL'') ex10)) 4) = None \<and>
   readyState (sockets (snd (on_connection 4 (Inl ''Invalid URL'') ex10)) 4) = 1 \<and>
   sent (sockets (snd (on_connection 4 (Inl ''Invalid URL'') ex10)) 4) = [] \<and>
   gameConnections (snd (on_connection 4 (Inl ''Invalid URL'') ex10)) = gameConnections ex10"
proof -
  have new: "sockets ex10 4 = new_socket"
    by (simp add: ex10)
  have "closeCode (sockets (snd (on_connection 4 (Inr [(''gameId'', ''g1'')]) ex10)) 4) =
     Some (4000, ''Missing apiKey or gameId parameter'')"
    by (simp add: on_connection_def searchParams_get_def handshake_def ws_close_def Let_def)
  moreover have "searchParams_get [(''gameId'', ''g1'')] ''apiKey'' = None"
    by (simp add: searchParams_get_def)
  ultimately show ?thesis
    using reach_ex10 ex10_fresh new
    by (simp add: on_connection_def new_socket_def)
qed

subsection \<open>C4: the owner passes the owner-or-player test\<close>

text \<open>
  Claim C4. For every game \<open>g\<close> the predicate \<open>isOwnerOrPlayer\<close> holds of the owner of
  \<open>g\<close>, whatever the roster of \<open>g\<close> is. The test in \<open>POST /games/:gameId/moves\<close> is
  this predicate (the answer is 403 exactly when it fails), and so is the test of the
  handshake (a user with a valid key who passes it is registered on an OPEN socket, one
  who fails it is closed with 4003 and not registered). So the owner is never answered
  403 by that route, and the owner's handshake with a valid key registers the socket.
\<close>

theorem owner_is_authorized:
  "getGameById (games w) gameId = Some g \<Longrightarrow>
     isOwnerOrPlayer g (ownerId g) \<and>
     (status_code (fst (post_moves w usr gameId reqBody u t1 t2)) = 403 \<longleftrightarrow>
        \<not> isOwnerOrPlayer g (user_id usr)) \<and>
     (k \<noteq> [] \<and> gameId \<noteq> [] \<and> getUserByApiKey (users w) k = Some usr \<longrightarrow>
        (isOwnerOrPlayer g (user_id usr) \<longrightarrow>
           registered (handshake h (Some k) (Some gameId) w) gameId h \<and>
           readyState (sockets (handshake h (Some k) (Some gameId) w) h) = 1 \<and>
           closeCode (sockets (handshake h (Some k) (Some gameId) w) h) = closeCode (sockets w h)) \<and>
        (\<not> isOwnerOrPlayer g (user_id usr) \<longrightarrow>
           closeCode (sockets (handshake h (Some k) (Some gameId) w) h) =
             Some (4003, ''Access denied: Not a player or owner of this game'') \<and>
           gameConnections (handshake h (Some k) (Some gameId) w) = gameConnections w)) \<and>
     (user_id usr = ownerId g \<longrightarrow>
        status_code (fst (post_moves w usr gameId reqBody u t1 t2)) \<noteq> 403 \<and>
        (k \<noteq> [] \<and> gameId \<noteq> [] \<and> getUserByApiKey (users w) k = Some usr \<longrightarrow>
           registered (handshake h (Some k) (Some gameId) w) gameId h \<and>
           readyState (sockets (handshake h (Some k) (Some gameId) w) h) = 1))"
proof -
  assume g: "getGameById (games w) gameId = Some g"
  note p = policy_in_handlers[OF g, of usr reqBody u t1 t2 k h]
  have o: "isOwnerOrPlayer g (user_id usr)" if "user_id usr = ownerId g"
    using that p by simp
  from p o show ?thesis
    by blast
qed

text \<open>
  Alice owns Chess and is not in its roster: her move is not refused with 403 and her
  socket is registered.
\<close>

theorem owner_is_authorized_witness:
  "getGameById (games ex4) ''g1'' = Some chess \<and>
   user_id alice = ownerId chess \<and>
   user_id alice \<notin> set (map player_id (players chess)) \<and>
   isOwnerOrPlayer chess (user_id alice) \<and>
   status_code (fst (post_moves ex4 alice ''g1'' Map.empty ''m1'' ''t8'' ''t8'')) \<noteq> 403 \<and>
   registered (handshake 0 (Some ''kakb'') (Some ''g1'') ex4) ''g1'' 0 \<and>
   readyState (sockets (handshake 0 (Some ''kakb'') (Some ''g1'') ex4) 0) = 1"
proof -
  have h: "getGameById (games ex4) ''g1'' = Some chess"
    by (rule games_ex4)
  have o: "user_id alice = ownerId chess" "user_id alice \<notin> set (map player_id (players chess))"
    by (simp_all add: alice_def chess_def pippo_def)
  show ?thesis
    using h o key_ex4
      owner_is_authorized[OF h, of alice Map.empty "''m1''" "''t8''" "''t8''" "''kakb''" 0]
    by simp
qed

subsection \<open>C5: moves are appended in order\<close>




subsection \<open>C6: a username cannot be registered twice\<close>

text \<open>
  Claim C6. \<open>registerUser\<close> fails with the error \<open>User already exists\<close> for every list
  of users and every username that a user of the list has. \<open>POST /auth/register\<close> looks
  up the trimmed username: when a user has it, the answer is 400 with that error and the
  state is unchanged. This is the case for the username of every user of a reachable
  state (registered names are stored trimmed), and for every request that repeats the
  body of a registration that succeeded, in whatever state is reached afterwards.
\<close>

theorem duplicate_username_rejected:
  "(uname \<in> username ` set us \<longrightarrow>
      registerUser us uname u1 u2 u3 t = Inl ''User already exists'') \<and>
   (reqBody ''username'' = Some (JStr s) \<and> trim s \<noteq> [] \<and> trim s \<in> username ` set (users w) \<longrightarrow>
      post_register w reqBody u1 u2 u3 t = (Response 400 (ErrorBody ''User already exists''), w)) \<and>
   (reach w \<and> usr \<in> set (users w) \<and> reqBody ''username'' = Some (JStr (username usr)) \<longrightarrow>
      post_register w reqBody u1 u2 u3 t = (Response 400 (ErrorBody ''User already exists''), w)) \<and>
   (status_code (fst (post_register w0 reqBody a1 a2 a3 t0)) = 201 \<and>
    step\<^sup>*\<^sup>* (snd (post_register w0 reqBody a1 a2 a3 t0)) w \<longrightarrow>
      post_register w reqBody u1 u2 u3 t = (Response 400 (ErrorBody ''User already exists''), w))"
proof (intro conjI impI)
  show "registerUser us uname u1 u2 u3 t = Inl ''User already exists''"
    if "uname \<in> username ` set us"
    using that by (rule registerUser_duplicate)
  show "post_register w reqBody u1 u2 u3 t = (Response 400 (ErrorBody ''User already exists''), w)"
    if "reqBody ''username'' = Some (JStr s) \<and> trim s \<noteq> [] \<and> trim s \<in> username ` set (users w)"
    using that by (auto intro: post_register_duplicate)
  show "post_register w reqBody u1 u2 u3 t = (Response 400 (ErrorBody ''User already exists''), w)"
    if h: "reach w \<and> usr \<in> set (users w) \<and> reqBody ''username'' = Some (JStr (username usr))"
  proof -
    from h reach_users_ok have "username usr \<noteq> []" "trim (username usr) = username usr"
      unfolding users_ok_def by blast+
    with h show ?thesis
      by (intro post_register_duplicate[of reqBody "username usr"]) auto
  qed
  show "post_register w reqBody u1 u2 u3 t = (Response 400 (ErrorBody ''User already exists''), w)"
    if h: "status_code (fst (post_register w0 reqBody a1 a2 a3 t0)) = 201 \<and>
      step\<^sup>*\<^sup>* (snd (post_register w0 reqBody a1 a2 a3 t0)) w"
  proof -
    from h post_register_created obtain s where
      s: "reqBody ''username'' = Some (JStr s)" "trim s \<noteq> []"
        "trim s \<in> username ` set (users (snd (post_register w0 reqBody a1 a2 a3 t0)))"
      by fastforce
    from h users_grow have "set (users (snd (post_register w0 reqBody a1 a2 a3 t0))) \<subseteq> set (users w)"
      by blast
    with s(3) have "trim s \<in> username ` set (users w)" by blast
    with s show ?thesis by (intro post_register_duplicate)
  qed
qed

text \<open>
  Alice is registered from the body with the padded name: registering her name again is
  refused at the end of the scenario, and so is the same body right after Bob registers.
\<close>

theorem duplicate_username_rejected_witness:
  "registerUser (users ex10) ''alice'' ''x1'' ''x2'' ''x3'' ''t9'' = Inl ''User already exists'' \<and>
   reach ex10 \<and> alice \<in> set (users ex10) \<and>
   post_register ex10 [''username'' \<mapsto> JStr ''alice''] ''x1'' ''x2'' ''x3'' ''t9'' =
     (Response 400 (ErrorBody ''User already exists''), ex10) \<and>
   status_code (fst (post_register init [''username'' \<mapsto> JStr '' alice ''] ''ka'' ''k-b'' ''ua'' ''t1'')) = 201 \<and>
   post_register ex2 [''username'' \<mapsto> JStr '' alice ''] ''x1'' ''x2'' ''x3'' ''t9'' =
     (Response 400 (ErrorBody ''User already exists''), ex2)"
proof -
  have a: "''alice'' \<in> username ` set (users ex10)" "alice \<in> set (users ex10)"
    "[''username'' \<mapsto> JStr ''alice''] ''username'' = Some (JStr (username alice))"
    by (simp_all add: users_ex10 alice_def)
  have c: "status_code (fst (post_register init [''username'' \<mapsto> JStr '' alice ''] ''ka'' ''k-b'' ''ua'' ''t1'')) = 201"
    by (simp add: post_register_def registerUser_def init_def trim_def isWhiteSpace_def Let_def)
  have st: "step\<^sup>*\<^sup>* (snd (post_register init [''username'' \<mapsto> JStr '' alice ''] ''ka'' ''k-b'' ''ua'' ''t1'')) ex2"
    using step_ex1_ex2 by (simp add: ex1_def)
  have 1: "registerUser (users ex10) ''alice'' ''x1'' ''x2'' ''x3'' ''t9'' = Inl ''User already exists''"
    using duplicate_username_rejected[of "''alice''" "users ex10" "''x1''" "''x2''" "''x3''" "''t9''"] a(1) by blast
  have 2: "post_register ex10 [''username'' \<mapsto> JStr ''alice''] ''x1'' ''x2'' ''x3'' ''t9'' =
     (Response 400 (ErrorBody ''User already exists''), ex10)"
    using duplicate_username_rejected[of _ _ "''x1''" "''x2''" "''x3''" "''t9''" "[''username'' \<mapsto> JStr ''alice'']" _ ex10 alice]
      reach_ex10 a(2,3) by blast
  have 3: "post_register ex2 [''username'' \<mapsto> JStr '' alice ''] ''x1'' ''x2'' ''x3'' ''t9'' =
     (Response 400 (ErrorBody ''User already exists''), ex2)"
    using duplicate_username_rejected[of _ _ "''x1''" "''x2''" "''x3''" "''t9''" "[''username'' \<mapsto> JStr '' alice '']" _ ex2 _
        init "''ka''" "''k-b''" "''ua''" "''t1''"] c st
    by blast
  from 1 2 3 reach_ex10 a(2) c show ?thesis by simp
qed

subsection \<open>C7: the list of moves and the single move are authorized differently\<close>

text \<open>
  Claim C7. For a game \<open>g\<close> that exists and an authenticated user,
  \<open>GET /games/:gameId/moves\<close> answers 200 exactly when the user is the owner of \<open>g\<close> or
  the user's identifier is the identifier of a player of \<open>g\<close>, and 403 otherwise;
  \<open>GET /games/:gameId/moves/:moveId\<close> answers 200 only to the owner, and 403 to every
  other user, a player included.
\<close>

theorem moves_authorization_asymmetry:
  "getGameById (games w) gameId = Some g \<Longrightarrow>
     (status_code (fst (get_moves w usr gameId)) = 200 \<longleftrightarrow> isOwnerOrPlayer g (user_id usr)) \<and>
     (\<not> isOwnerOrPlayer g (user_id usr) \<longrightarrow> status_code (fst (get_moves w usr gameId)) = 403) \<and>
     (status_code (fst (get_move w usr gameId moveId)) = 200 \<longrightarrow> isOwner g (user_id usr)) \<and>
     (\<not> isOwner g (user_id usr) \<longrightarrow>
        fst (get_move w usr gameId moveId) = Response 403 (ErrorBody ''Access denied''))"
  by (simp add: get_moves_def get_move_def Let_def isOwnerOrPlayer_test isOwner_def
      split: option.splits)

text \<open>
  In the store written by hand Bob is a player of Alice's game: he lists the moves and is
  refused the single move; a user who is neither is refused the list.
\<close>

theorem moves_authorization_asymmetry_witness:
  "getGameById (games by_hand) ''g1'' = Some shared_game \<and>
   status_code (fst (get_moves by_hand bob ''g1'')) = 200 \<and>
   fst (get_move by_hand bob ''g1'' ''m1'') = Response 403 (ErrorBody ''Access denied'') \<and>
   isOwner shared_game (user_id alice) \<and>
   \<not> isOwnerOrPlayer shared_game ''uc'' \<and>
   status_code (fst (get_moves by_hand (bob\<lparr>user_id := ''uc''\<rparr>) ''g1'')) = 403"
proof -
  have h: "getGameById (games by_hand) ''g1'' = Some shared_game"
    by (rule games_by_hand)
  have b: "isOwnerOrPlayer shared_game (user_id bob)" "\<not> isOwner shared_game (user_id bob)"
    "isOwner shared_game (user_id alice)" "\<not> isOwnerOrPlayer shared_game ''uc''"
    by (simp_all add: isOwnerOrPlayer_def isOwner_def shared_game_def chess_def pippo_def
        bob_def alice_def)
  show ?thesis
    using h b moves_authorization_asymmetry[OF h, of bob "''m1''"] moves_authorization_asymmetry[OF h, of "bob\<lparr>user_id := ''uc''\<rparr>" "''m1''"]
    by simp
qed

subsection \<open>C8: the answers of POST /games/:gameId/moves\<close>

text \<open>
  Claim C8 says that \<open>POST /games/:gameId/moves\<close> answers 400 when \<open>data\<close> is not an
  object. The handler tests \<open>typeof data\<close>, which is object for an array as well, while
  its own message for the 400 says that the data must be a JSON object: in the scenario,
  Alice's move for pippo with a string as data is answered 400 with that message, and
  with the array \<open>[1]\<close> as data it is answered 201, the move is recorded with the array
  as its data, and the \<open>move\<close> event carrying it is sent to her two OPEN sockets on
  Chess (and to neither her CLOSING socket nor Bob's socket on Go).
\<close>

theorem post_moves_array_data:
  "reach ex10 \<and>
   fst (post_moves ex10 alice ''g1'' [''playerId'' \<mapsto> JStr ''p1'', ''data'' \<mapsto> JStr ''e4'']
          ''m1'' ''t8'' ''t9'') =
     Response 400 (ErrorBody ''Invalid move data (must be JSON object)'') \<and>
   fst (post_moves ex10 alice ''g1'' [''playerId'' \<mapsto> JStr ''p1'', ''data'' \<mapsto> JArr [JNum 1]]
          ''m1'' ''t8'' ''t9'') =
     Response 201 (MoveBody ''Move added successfully''
       (Some \<lparr>move_id = ''m1'', playerId = ''p1'', data = JArr [JNum 1], timestamp = ''t8''\<rparr>)) \<and>
   getGameMoves (games (snd (post_moves ex10 alice ''g1''
          [''playerId'' \<mapsto> JStr ''p1'', ''data'' \<mapsto> JArr [JNum 1]] ''m1'' ''t8'' ''t9''))) ''g1'' =
     [\<lparr>move_id = ''m1'', playerId = ''p1'', data = JArr [JNum 1], timestamp = ''t8''\<rparr>] \<and>
   sent (sockets (snd (post_moves ex10 alice ''g1''
          [''playerId'' \<mapsto> JStr ''p1'', ''data'' \<mapsto> JArr [JNum 1]] ''m1'' ''t8'' ''t9'')) 0) =
     [Connected (JStr ''Chess'') ''g1'' ''alice'',
      MoveEvent ''g1''
        (Some \<lparr>move_id = ''m1'', playerId = ''p1'', data = JArr [JNum 1], timestamp = ''t8''\<rparr>)
        ''pippo''] \<and>
   sent (sockets (snd (post_moves ex10 alice ''g1''
          [''playerId'' \<mapsto> JStr ''p1'', ''data'' \<mapsto> JArr [JNum 1]] ''m1'' ''t8'' ''t9'')) 3) =
     [Connected (JStr ''Chess'') ''g1'' ''alice'',
      MoveEvent ''g1''
        (Some \<lparr>move_id = ''m1'', playerId = ''p1'', data = JArr [JNum 1], timestamp = ''t8''\<rparr>)
        ''pippo''] \<and>
   sent (sockets (snd (post_moves ex10 alice ''g1''
          [''playerId'' \<mapsto> JStr ''p1'', ''data'' \<mapsto> JArr [JNum 1]] ''m1'' ''t8'' ''t9'')) 1) =
     [Connected (JStr ''Chess'') ''g1'' ''alice''] \<and>
   sent (sockets (snd (post_moves ex10 alice ''g1''
          [''playerId'' \<mapsto> JStr ''p1'', ''data'' \<mapsto> JArr [JNum 1]] ''m1'' ''t8'' ''t9'')) 2) =
     [Connected (JStr ''Go'') ''g2'' ''bob'']"
proof -
  let ?s = "[''playerId'' \<mapsto> JStr ''p1'', ''data'' \<mapsto> JStr ''e4'']"
  let ?b = "[''playerId'' \<mapsto> JStr ''p1'', ''data'' \<mapsto> JArr [JNum 1]]"
  let ?w = "snd (post_moves ex10 alice ''g1'' ?b ''m1'' ''t8'' ''t9'')"
  have 1: "fst (post_moves ex10 alice ''g1'' ?s ''m1'' ''t8'' ''t9'') =
      Response 400 (ErrorBody ''Invalid move data (must be JSON object)'')"
    using games_ex10(2) chess_roster(1)
    by (simp add: post_moves_def Let_def isOwnerOrPlayer_test)
  have v: "truthy (?b ''playerId'')" "typeof (?b ''playerId'') = ''string''"
    "truthy (?b ''data'')" "typeof (?b ''data'') = ''object''"
    by simp_all
  have e: "the_str (?b ''playerId'') = ''p1''" "the_val (?b ''data'') = JArr [JNum 1]"
    by simp_all
  have f: "find (\<lambda>p. player_id p = the_str (?b ''playerId'')) (players chess) = Some pippo"
    by (simp add: chess_roster)
  note t = post_moves_sent[of ex10 "''g1''" chess alice "?b" pippo "''m1''" "''t8''" "''t9''",
      OF reach_ex10 games_ex10(2) chess_roster(1) v f]
  have n: "player_name pippo = ''pippo''"
    by (simp add: pippo_def)
  have 2: "fst (post_moves ex10 alice ''g1'' ?b ''m1'' ''t8'' ''t9'') =
     Response 201 (MoveBody ''Move added successfully''
       (Some \<lparr>move_id = ''m1'', playerId = ''p1'', data = JArr [JNum 1], timestamp = ''t8''\<rparr>))"
    using t(1) by simp
  have 3: "getGameMoves (games ?w) ''g1'' =
     [\<lparr>move_id = ''m1'', playerId = ''p1'', data = JArr [JNum 1], timestamp = ''t8''\<rparr>]"
    using t(2) by (simp add: chess_roster(5))
  have 4: "sent (sockets ?w 0) =
     [Connected (JStr ''Chess'') ''g1'' ''alice'',
      MoveEvent ''g1''
        (Some \<lparr>move_id = ''m1'', playerId = ''p1'', data = JArr [JNum 1], timestamp = ''t8''\<rparr>)
        ''pippo'']"
    using t(4)[of 0] by (simp add: ex10_registry ex10_sockets greeted_def n)
  have 5: "sent (sockets ?w 3) =
     [Connected (JStr ''Chess'') ''g1'' ''alice'',
      MoveEvent ''g1''
        (Some \<lparr>move_id = ''m1'', playerId = ''p1'', data = JArr [JNum 1], timestamp = ''t8''\<rparr>)
        ''pippo'']"
    using t(4)[of 3] by (simp add: ex10_registry ex10_sockets greeted_def n)
  have 6: "sent (sockets ?w 1) = [Connected (JStr ''Chess'') ''g1'' ''alice'']"
    using t(4)[of 1] by (simp add: ex10_registry ex10_sockets greeted_def)
  have 7: "sent (sockets ?w 2) = [Connected (JStr ''Go'') ''g2'' ''bob'']"
    using t(4)[of 2] by (simp add: ex10_registry ex10_sockets greeted_def)
  from reach_ex10 1 2 3 4 5 6 7 show ?thesis
    by simp
qed

text \<open>
  The values of the handler's tests at these two requests: the array is truthy and of type
  object, the string is truthy and not of type object.
\<close>

theorem post_moves_array_data_witness:
  "truthy (Some (JStr ''p1'')) \<and> typeof (Some (JStr ''p1'')) = ''string'' \<and>
   truthy (Some (JArr [JNum 1])) \<and> typeof (Some (JArr [JNum 1])) = ''object'' \<and>
   truthy (Some (JStr ''e4'')) \<and> typeof (Some (JStr ''e4'')) = ''string'' \<and>
   status_code (fst (post_moves ex10 alice ''g1''
     [''playerId'' \<mapsto> JStr ''p1'', ''data'' \<mapsto> JArr [JNum 1]] ''m1'' ''t8'' ''t9'')) = 201 \<and>
   status_code (fst (post_moves ex10 alice ''g1''
     [''playerId'' \<mapsto> JStr ''p1'', ''data'' \<mapsto> JStr ''e4''] ''m1'' ''t8'' ''t9'')) = 400"
  using post_moves_array_data by simp

subsection \<open>C9: what PUT /games/:gameId changes\<close>

text \<open>
  Claim C9. \<open>PUT /games/:gameId\<close> changes nothing but the name, the status and the
  update time of the game addressed, and only when the requester owns it: the users, the
  registry and the sockets are as before, the list of games has the same length, every
  game keeps its identifier, owner, players, moves and creation time, and every game
  other than the one found by the identifier, or not owned by the requester, is left as
  it was. For the owner the game found becomes the old one with the name and status of
  the body where they are truthy, and the new update time. No step of the system changes
  an owner: a game of the next state whose identifier was in use is a game of the
  previous state, with the same owner.
\<close>

theorem put_game_frame:
  "put_game w usr gameId reqBody now = (r, w') \<Longrightarrow>
     users w' = users w \<and> gameConnections w' = gameConnections w \<and> sockets w' = sockets w \<and>
     length (games w') = length (games w) \<and>
     (\<forall>j < length (games w).
        game_id (games w' ! j) = game_id (games w ! j) \<and>
        ownerId (games w' ! j) = ownerId (games w ! j) \<and>
        players (games w' ! j) = players (games w ! j) \<and>
        moves (games w' ! j) = moves (games w ! j) \<and>
        createdAt (games w' ! j) = createdAt (games w ! j) \<and>
        (findIndex (\<lambda>g. game_id g = gameId) (games w) \<noteq> Some j \<longrightarrow> games w' ! j = games w ! j) \<and>
        (ownerId (games w ! j) \<noteq> user_id usr \<longrightarrow> games w' ! j = games w ! j)) \<and>
     (\<forall>g. getGameById (games w) gameId = Some g \<and> ownerId g = user_id usr \<longrightarrow>
        getGameById (games w') gameId =
          Some (g\<lparr>game_name := (if truthy (reqBody ''name'') then the_val (reqBody ''name'')
                                 else game_name g),
                  status := (if truthy (reqBody ''status'') then the_val (reqBody ''status'')
                             else status g),
                  updatedAt := now\<rparr>) \<and>
        status_code r = 200) \<and>
     (\<forall>w1 w2 g2. step w1 w2 \<and> g2 \<in> set (games w2) \<and> game_id g2 \<in> game_id ` set (games w1) \<longrightarrow>
        (\<exists>g1 \<in> set (games w1). game_id g1 = game_id g2 \<and> ownerId g1 = ownerId g2))"
proof -
  assume pg: "put_game w usr gameId reqBody now = (r, w')"
  have kept: "\<forall>w1 w2 g2. step w1 w2 \<and> g2 \<in> set (games w2) \<and> game_id g2 \<in> game_id ` set (games w1) \<longrightarrow>
        (\<exists>g1 \<in> set (games w1). game_id g1 = game_id g2 \<and> ownerId g1 = ownerId g2)"
    using owner_kept by blast
  from put_game_changes[OF pg] kept show ?thesis
    by (intro conjI) blast+
qed

text \<open>
  Alice renames Chess: the owner and the roster stay, and Go is untouched. When Bob
  creates Go, Chess keeps its owner.
\<close>

theorem put_game_frame_witness:
  "getGameById (games ex10) ''g1'' = Some chess \<and> ownerId chess = user_id alice \<and>
   getGameById (games (snd (put_game ex10 alice ''g1'' [''name'' \<mapsto> JStr ''Blitz''] ''t9''))) ''g1'' =
     Some (chess\<lparr>game_name := JStr ''Blitz'', updatedAt := ''t9''\<rparr>) \<and>
   ownerId (games (snd (put_game ex10 alice ''g1'' [''name'' \<mapsto> JStr ''Blitz''] ''t9'')) ! 0) = ''ua'' \<and>
   players (games (snd (put_game ex10 alice ''g1'' [''name'' \<mapsto> JStr ''Blitz''] ''t9'')) ! 0) = [pippo] \<and>
   games (snd (put_game ex10 alice ''g1'' [''name'' \<mapsto> JStr ''Blitz''] ''t9'')) ! 1 = go \<and>
   users (snd (put_game ex10 alice ''g1'' [''name'' \<mapsto> JStr ''Blitz''] ''t9'')) = [alice, bob] \<and>
   step ex7 ex8 \<and>
   (\<exists>g1 \<in> set (games ex7). game_id g1 = game_id chess \<and> ownerId g1 = ownerId chess)"
proof -
  have o: "ownerId chess = user_id alice" "findIndex (\<lambda>g. game_id g = ''g1'') (games ex10) = Some 0"
    by (simp_all add: games_ex10 chess_def alice_def)
  have u: "users ex10 = [alice, bob]"
    by (simp add: ex10)
  note t = put_game_frame[OF put_game_pair[of ex10 alice "''g1''" "[''name'' \<mapsto> JStr ''Blitz'']" "''t9''"]]
  have k: "chess \<in> set (games ex8)" "game_id chess \<in> game_id ` set (games ex7)"
    by (simp_all add: ex8 ex7)
  from t step_ex7_ex8 k have kept:
    "\<exists>g1 \<in> set (games ex7). game_id g1 = game_id chess \<and> ownerId g1 = ownerId chess"
    by blast
  from t have t': "users (snd (put_game ex10 alice ''g1'' [''name'' \<mapsto> JStr ''Blitz''] ''t9'')) = users ex10 \<and>
     length (games (snd (put_game ex10 alice ''g1'' [''name'' \<mapsto> JStr ''Blitz''] ''t9''))) = length (games ex10) \<and>
     (\<forall>j < length (games ex10).
        ownerId (games (snd (put_game ex10 alice ''g1'' [''name'' \<mapsto> JStr ''Blitz''] ''t9'')) ! j) = ownerId (games ex10 ! j) \<and>
        players (games (snd (put_game ex10 alice ''g1'' [''name'' \<mapsto> JStr ''Blitz''] ''t9'')) ! j) = players (games ex10 ! j) \<and>
        (findIndex (\<lambda>g. game_id g = ''g1'') (games ex10) \<noteq> Some j \<longrightarrow>
           games (snd (put_game ex10 alice ''g1'' [''name'' \<mapsto> JStr ''Blitz''] ''t9'')) ! j = games ex10 ! j)) \<and>
     (\<forall>g. getGameById (games ex10) ''g1'' = Some g \<and> ownerId g = user_id alice \<longrightarrow>
        getGameById (games (snd (put_game ex10 alice ''g1'' [''name'' \<mapsto> JStr ''Blitz''] ''t9''))) ''g1'' =
          Some (g\<lparr>game_name := (if truthy ([''name'' \<mapsto> JStr ''Blitz''] ''name'')
                                 then the_val ([''name'' \<mapsto> JStr ''Blitz''] ''name'') else game_name g),
                  status := (if truthy ([''name'' \<mapsto> JStr ''Blitz''] ''status'')
                             then the_val ([''name'' \<mapsto> JStr ''Blitz''] ''status'') else status g),
                  updatedAt := ''t9''\<rparr>))"
    by blast
  show ?thesis
    using t' games_ex10 o u step_ex7_ex8 kept
    by (simp add: chess_def)
qed

subsection \<open>C10: rosters hold no user identifier\<close>

text \<open>
  Claim C10. In every state reachable from the empty stores, with identifiers drawn
  fresh, no player of any game has the identifier of a user. So a user passes the
  owner-or-player test of a game only as its owner: whoever authenticates with a key and
  does not own the game is answered 403 by \<open>POST /games/:gameId/moves\<close> and by
  \<open>GET /games/:gameId/moves\<close>, and is closed with 4003 by the handshake.
\<close>

theorem roster_disjoint_from_users:
  "reach w \<Longrightarrow>
     (\<forall>g \<in> set (games w). \<forall>p \<in> set (players g). \<forall>usr \<in> set (users w). player_id p \<noteq> user_id usr) \<and>
     (\<forall>g \<in> set (games w). \<forall>usr \<in> set (users w).
        isOwnerOrPlayer g (user_id usr) \<longrightarrow> ownerId g = user_id usr) \<and>
     (\<forall>k usr gameId gm.
        getUserByApiKey (users w) k = Some usr \<and> getGameById (games w) gameId = Some gm \<and>
        ownerId gm \<noteq> user_id usr \<longrightarrow>
          status_code (fst (post_moves w usr gameId reqBody u t1 t2)) = 403 \<and>
          status_code (fst (get_moves w usr gameId)) = 403 \<and>
          (k \<noteq> [] \<and> gameId \<noteq> [] \<longrightarrow>
             closeCode (sockets (handshake h (Some k) (Some gameId) w) h) =
               Some (4003, ''Access denied: Not a player or owner of this game'')))"
proof -
  assume rw: "reach w"
  have ro: "roster_ok w" by (rule reach_roster_ok[OF rw])
  have own: "ownerId g = user_id usr"
    if "g \<in> set (games w)" "usr \<in> set (users w)" "isOwnerOrPlayer g (user_id usr)" for g usr
  proof (rule ccontr)
    assume "ownerId g \<noteq> user_id usr"
    with that(3) obtain p where "p \<in> set (players g)" "player_id p = user_id usr"
      unfolding isOwnerOrPlayer_def isOwner_def by auto
    with ro that(1,2) show False
      unfolding roster_ok_def by blast
  qed
  have denied: "status_code (fst (post_moves w usr gameId reqBody u t1 t2)) = 403 \<and>
      status_code (fst (get_moves w usr gameId)) = 403 \<and>
      (k \<noteq> [] \<and> gameId \<noteq> [] \<longrightarrow>
         closeCode (sockets (handshake h (Some k) (Some gameId) w) h) =
           Some (4003, ''Access denied: Not a player or owner of this game''))"
    if k: "getUserByApiKey (users w) k = Some usr" and g: "getGameById (games w) gameId = Some gm"
      and no: "ownerId gm \<noteq> user_id usr" for k usr gameId gm
  proof -
    from k have "usr \<in> set (users w)"
      by (auto simp: getUserByApiKey_def dest: find_SomeD)
    moreover from g have "gm \<in> set (games w)"
      by (auto simp: getGameById_def dest: find_SomeD)
    ultimately have na: "\<not> isOwnerOrPlayer gm (user_id usr)"
      using own no by blast
    show ?thesis
      using k g na
      by (simp add: post_moves_def get_moves_def handshake_cases Let_def isOwnerOrPlayer_test)
  qed
  from ro own denied show ?thesis
    unfolding roster_ok_def by blast
qed

text \<open>Bob does not own Chess: both routes answer 403 and the handshake closes with 4003.\<close>

theorem roster_disjoint_from_users_witness:
  "reach ex10 \<and> getUserByApiKey (users ex10) ''kckd'' = Some bob \<and>
   getGameById (games ex10) ''g1'' = Some chess \<and> ownerId chess \<noteq> user_id bob \<and>
   pippo \<in> set (players chess) \<and> player_id pippo \<noteq> user_id bob \<and>
   status_code (fst (post_moves ex10 bob ''g1''
      [''playerId'' \<mapsto> JStr ''p1'', ''data'' \<mapsto> JObj []] ''m1'' ''t8'' ''t8'')) = 403 \<and>
   status_code (fst (get_moves ex10 bob ''g1'')) = 403 \<and>
   closeCode (sockets (handshake 4 (Some ''kckd'') (Some ''g1'') ex10) 4) =
     Some (4003, ''Access denied: Not a player or owner of this game'')"
proof -
  have o: "ownerId chess \<noteq> user_id bob" "pippo \<in> set (players chess)"
    "chess \<in> set (games ex10)" "bob \<in> set (users ex10)"
    by (simp_all add: chess_def bob_def games_ex10 users_ex10)
  note t = roster_disjoint_from_users[OF reach_ex10, of "[''playerId'' \<mapsto> JStr ''p1'', ''data'' \<mapsto> JObj []]"
      "''m1''" "''t8''" "''t8''" 4]
  from t o have 1: "player_id pippo \<noteq> user_id bob"
    by blast
  from t ex10_keys(2) games_ex10(2) o(1) have 2:
    "status_code (fst (post_moves ex10 bob ''g1''
      [''playerId'' \<mapsto> JStr ''p1'', ''data'' \<mapsto> JObj []] ''m1'' ''t8'' ''t8'')) = 403 \<and>
     status_code (fst (get_moves ex10 bob ''g1'')) = 403 \<and>
     (''kckd'' \<noteq> [] \<and> ''g1'' \<noteq> [] \<longrightarrow>
     closeCode (sockets (handshake 4 (Some ''kckd'') (Some ''g1'') ex10) 4) =
       Some (4003, ''Access denied: Not a player or owner of this game''))"
    by blast
  from 1 2 o reach_ex10 ex10_keys(2) games_ex10(2) show ?thesis
    by simp
qed

end
